theory Spec2Isabelle
  imports Complex_Main
begin

section \<open>Data model\<close>

text \<open>
  Python floats are modelled as real numbers: rounding, infinities and overflow are
  outside the model. A NumPy array of dimension one is a list, one of dimension two a
  list of rows. Exceptions are values of \<open>error\<close>, and a function that can raise returns
  \<open>error + 'a\<close> with \<open>Inl\<close> for the exception.
\<close>

datatype error =
    TypeError
  | AttributeError
  | ValueError
  | NotImplementedError
  | KeyError
  | IndexError
  | AssertionError
  | NotANumber

type_synonym vec = "real list"
type_synonym mat = "real list list"

subsection \<open>Thomas-Fermi kinetic energy functional (fde_psi4.py, compute_kinetic_tf)\<close>

text \<open>
  \<open>np.power(x, y)\<close> with a negative base and a fractional exponent is nan, which is no
  real number: the model returns \<open>None\<close> there. Multiplying by a constant keeps nan.
\<close>

definition np_power :: "real \<Rightarrow> real \<Rightarrow> real option" where
  "np_power x y = (if x < 0 then None else Some (x powr y))"

definition cf :: real where
  "cf = 2.8712"

definition compute_kinetic_tf :: "vec \<Rightarrow> real option list \<times> real option list" where
  "compute_kinetic_tf rho =
     (let et = map (\<lambda>r. map_option (\<lambda>p. cf * p) (np_power r (5 / 3))) rho;
          vt = map (\<lambda>r. map_option (\<lambda>p. cf * 5 / 3 * p) (np_power r (2 / 3))) rho
      in (et, vt))"

subsection \<open>Python values and the array heap\<close>

text \<open>
  An ndarray is an object with an identity: two names can refer to one array, and an
  in-place update through one is seen through the other. The heap maps the address of
  an array to its contents; \<open>PyArray a\<close> is a reference to the array at address \<open>a\<close>.
  \<open>PyLambda a\<close> is the closure \<open>lambda *args: pot\<close> whose variable \<open>pot\<close> is bound to the
  array at address \<open>a\<close>.
\<close>

datatype pyval =
    PyNone
  | PyFloat real
  | PyBool bool
  | PyStr string
  | PyArray nat
  | PyLambda nat

type_synonym heap = "nat \<Rightarrow> mat"

type_synonym kwargs = "(string \<times> pyval) list"

subsection \<open>Strings (str.splitlines, str.split, str.join, str.lower)\<close>

definition is_linebreak :: "char \<Rightarrow> bool" where
  "is_linebreak c \<longleftrightarrow>
     c \<in> {CHR 0x0A, CHR 0x0D, CHR 0x0B, CHR 0x0C, CHR 0x1C, CHR 0x1D, CHR 0x1E, CHR 0x85}"

fun splitlines_from :: "string \<Rightarrow> string \<Rightarrow> string list" where
  "splitlines_from cur [] = (if cur = [] then [] else [cur])"
| "splitlines_from cur [c] =
     (if is_linebreak c then [cur] else [cur @ [c]])"
| "splitlines_from cur (c # d # cs) =
     (if c = CHR 0x0D \<and> d = CHR 0x0A then cur # splitlines_from [] cs
      else if is_linebreak c then cur # splitlines_from [] (d # cs)
      else splitlines_from (cur @ [c]) (d # cs))"

definition splitlines :: "string \<Rightarrow> string list" where
  "splitlines s = splitlines_from [] s"

fun split_on :: "char \<Rightarrow> string \<Rightarrow> string list" where
  "split_on sep [] = [[]]"
| "split_on sep (c # cs) =
     (if c = sep then [] # split_on sep cs
      else (case split_on sep cs of
              [] \<Rightarrow> [[c]]
            | w # ws \<Rightarrow> (c # w) # ws))"

fun join :: "string \<Rightarrow> string list \<Rightarrow> string" where
  "join sep [] = []"
| "join sep [x] = x"
| "join sep (x # y # ys) = x @ sep @ join sep (y # ys)"

definition lower_char :: "char \<Rightarrow> char" where
  "lower_char c =
     (if (65 :: nat) \<le> of_char c \<and> of_char c \<le> (90 :: nat)
      then char_of (of_char c + (32 :: nat)) else c)"

definition lower :: "string \<Rightarrow> string" where
  "lower s = map lower_char s"

subsection \<open>Molecules (scf_pyscf.py, get_pyscf_molecule)\<close>

text \<open>
  What the code reads of its argument \<open>mol\<close>: whether it is an instance of
  qcelemental's Molecule, its attribute molecular_multiplicity (\<open>None\<close> when the object
  has no such attribute) and the text \<open>mol.to_string(dtype='xyz')\<close>. The PySCF
  constructor \<open>gto.M\<close> is external: the model records the arguments it is given.
\<close>

record molecule =
  is_Molecule :: bool
  molecular_multiplicity :: "int option"
  to_string_xyz :: string

record pyscf_mol =
  atom :: string
  basis :: string
  spin :: int

definition short_line :: "string \<Rightarrow> bool" where
  "short_line line \<longleftrightarrow> length (split_on CHR '' '' line) < 4"

definition count_short :: "string list \<Rightarrow> nat" where
  "count_short lines = fold (\<lambda>line count. if short_line line then count + 1 else count) lines 0"

definition get_pyscf_molecule :: "molecule \<Rightarrow> string \<Rightarrow> error + pyscf_mol" where
  "get_pyscf_molecule mol bas =
     (case molecular_multiplicity mol of
        None \<Rightarrow> Inl AttributeError
      | Some multiplicity \<Rightarrow>
          (let spin = multiplicity - 1;
               string = to_string_xyz mol;
               lines = splitlines string;
               count = count_short lines;
               string = join [CHR 0x0A] (drop count lines)
           in Inr \<lparr>atom = string, basis = bas, spin = spin\<rparr>))"

subsection \<open>SCF method base class (scf.py, ScfMethod)\<close>

text \<open>
  The attribute density starts as the empty list and is documented as a list of arrays;
  ScfPyScf.solve_scf stores a single ndarray in it. The truth value of
  \<open>ndarray != []\<close> is decided by NumPy, so it is a parameter \<open>ne_nil\<close> of the model.
\<close>

datatype density_val = DensityList "mat list" | DensityArray mat

record scf_method =
  mol :: molecule
  new :: bool
  density :: density_val
  energy :: "string \<rightharpoonup> real"

definition ScfMethod_init :: "molecule \<Rightarrow> error + scf_method" where
  "ScfMethod_init m =
     (if \<not> is_Molecule m then Inl TypeError
      else Inr \<lparr>mol = m, new = True, density = DensityList [], energy = Map.empty\<rparr>)"

definition restricted :: "'a scf_method_scheme \<Rightarrow> error + bool" where
  "restricted self =
     (case molecular_multiplicity (mol self) of
        None \<Rightarrow> Inl AttributeError
      | Some m \<Rightarrow> Inr (m = 1))"

definition density_ne_nil :: "(mat \<Rightarrow> error + bool) \<Rightarrow> density_val \<Rightarrow> error + bool" where
  "density_ne_nil ne_nil d =
     (case d of DensityList xs \<Rightarrow> Inr (xs \<noteq> []) | DensityArray m \<Rightarrow> ne_nil m)"

text \<open>
  A method returns its result, or the exception it raised, together with the object as
  the call left it. \<open>solve_scf\<close> is the method of the subclass.
\<close>

definition get_density ::
  "(mat \<Rightarrow> error + bool) \<Rightarrow> (kwargs \<Rightarrow> 'a scf_method_scheme \<Rightarrow> (error + unit) \<times> 'a scf_method_scheme)
     \<Rightarrow> 'a scf_method_scheme \<Rightarrow> (error + density_val) \<times> 'a scf_method_scheme" where
  "get_density ne_nil solve_scf self =
     (case density_ne_nil ne_nil (density self) of
        Inl e \<Rightarrow> (Inl e, self)
      | Inr True \<Rightarrow> (Inr (density self), self)
      | Inr False \<Rightarrow>
          (case solve_scf [(''conv_tol'', PyFloat (1 / 10 ^ 12))] self of
             (Inl e, self') \<Rightarrow> (Inl e, self')
           | (Inr _, self') \<Rightarrow> (Inr (density self'), self')))"

definition energy_item :: "'a scf_method_scheme \<Rightarrow> (error + real) \<times> 'a scf_method_scheme" where
  "energy_item self =
     (case energy self ''scf'' of None \<Rightarrow> (Inl KeyError, self) | Some e \<Rightarrow> (Inr e, self))"

definition get_energy ::
  "(kwargs \<Rightarrow> 'a scf_method_scheme \<Rightarrow> (error + unit) \<times> 'a scf_method_scheme)
     \<Rightarrow> 'a scf_method_scheme \<Rightarrow> (error + real) \<times> 'a scf_method_scheme" where
  "get_energy solve_scf self =
     (if (case energy self ''scf'' of None \<Rightarrow> 0 | Some e \<Rightarrow> e) \<noteq> 0 then energy_item self
      else (case solve_scf [(''conv_tol'', PyFloat (1 / 10 ^ 12))] self of
              (Inl e, self') \<Rightarrow> (Inl e, self')
            | (Inr _, self') \<Rightarrow> energy_item self'))"

text \<open>
  The base class declares \<open>solve_scf(self)\<close> without keyword parameters and raises
  NotImplementedError in its body.
\<close>

definition ScfMethod_solve_scf ::
  "kwargs \<Rightarrow> 'a scf_method_scheme \<Rightarrow> (error + unit) \<times> 'a scf_method_scheme" where
  "ScfMethod_solve_scf scfkwargs self =
     (if scfkwargs \<noteq> [] then (Inl TypeError, self) else (Inl NotImplementedError, self))"

subsection \<open>SCF with PySCF (scf_pyscf.py, ScfPyScf)\<close>

text \<open>
  The PySCF solver object (\<open>scf.RHF\<close> or \<open>dft.RKS\<close>) is external. The model keeps its
  class, the molecule it was built from and the instance attributes this repository's
  code assigns (\<open>xc\<close>, \<open>attr\<close>, \<open>get_hcore\<close>). What PySCF computes is a parameter: the
  record \<open>pyscf_api\<close> holds \<open>kernel\<close> (which runs the SCF on the object as configured,
  reading the heap when get_hcore is overridden), the attribute \<open>e_tot\<close> and the methods
  \<open>make_rdm1\<close> and the class's own \<open>get_hcore\<close> (called with positional arguments).
\<close>

datatype solver_class = RHF | RKS

record solver =
  solver_class :: solver_class
  solver_mol :: pyscf_mol
  attrs :: "string \<rightharpoonup> pyval"

record pyscf_api =
  kernel :: "heap \<Rightarrow> solver \<Rightarrow> error + solver"
  e_tot :: "solver \<Rightarrow> real"
  make_rdm1 :: "solver \<Rightarrow> mat"
  class_get_hcore :: "solver \<Rightarrow> pyval list \<Rightarrow> error + mat"

record scf_pyscf = scf_method +
  mol_pyscf :: pyscf_mol
  scf_object :: solver
  priv_scf_object :: solver

text \<open>
  \<open>copy(obj)\<close> is a shallow copy: a new object with the same attribute bindings. Objects
  are values here, so the copy is the value itself; assigning an attribute of the copy
  later does not touch the original.
\<close>

definition copy :: "solver \<Rightarrow> solver" where
  "copy obj = obj"

text \<open>
  The object after the assignments to \<open>self.mol_pyscf\<close>, \<open>self.scf_object\<close> and
  \<open>self._scf_object\<close>: the attributes set by the base class stay as they are.
\<close>

definition with_solver :: "scf_method \<Rightarrow> pyscf_mol \<Rightarrow> solver \<Rightarrow> solver \<Rightarrow> scf_pyscf" where
  "with_solver self pm obj clean =
     \<lparr>mol = mol self, new = new self, density = density self, energy = energy self,
      mol_pyscf = pm, scf_object = obj, priv_scf_object = clean\<rparr>"

definition ScfPyScf_init ::
  "molecule \<Rightarrow> string \<Rightarrow> string \<Rightarrow> string option \<Rightarrow> error + scf_pyscf" where
  "ScfPyScf_init m bas method xc_code =
     (case ScfMethod_init m of
        Inl e \<Rightarrow> Inl e
      | Inr self \<Rightarrow>
          (case get_pyscf_molecule (mol self) bas of
             Inl e \<Rightarrow> Inl e
           | Inr pm \<Rightarrow>
               (case restricted self of
                  Inl e \<Rightarrow> Inl e
                | Inr True \<Rightarrow>
                    (if lower method = ''dft'' then
                       (case xc_code of
                          None \<Rightarrow> Inl ValueError
                        | Some xc \<Rightarrow>
                            (let obj = \<lparr>solver_class = RKS, solver_mol = pm,
                                        attrs = [''xc'' \<mapsto> PyStr xc]\<rparr>
                             in Inr (with_solver self pm obj (copy obj))))
                     else if lower method = ''hf'' then
                       (let obj = \<lparr>solver_class = RHF, solver_mol = pm, attrs = Map.empty\<rparr>
                        in Inr (with_solver self pm obj (copy obj)))
                     else Inl ValueError)
                | Inr False \<Rightarrow> Inl NotImplementedError)))"

text \<open>
  Calling \<open>obj.get_hcore(...)\<close>: an instance attribute of that name shadows the method of
  the class. The closure returns the very array it holds (\<open>Ref a\<close>); the class's method
  returns a newly allocated array (\<open>Fresh m\<close>).
\<close>

datatype array_ref = Ref nat | Fresh mat

definition deref :: "heap \<Rightarrow> array_ref \<Rightarrow> mat" where
  "deref h r = (case r of Ref a \<Rightarrow> h a | Fresh m \<Rightarrow> m)"

definition get_hcore :: "pyscf_api \<Rightarrow> solver \<Rightarrow> pyval list \<Rightarrow> error + array_ref" where
  "get_hcore api obj args =
     (case attrs obj ''get_hcore'' of
        None \<Rightarrow> (case class_get_hcore api obj args of Inl e \<Rightarrow> Inl e | Inr m \<Rightarrow> Inr (Fresh m))
      | Some (PyLambda a) \<Rightarrow> Inr (Ref a)
      | Some _ \<Rightarrow> Inl TypeError)"

text \<open>
  \<open>pot += ref\<close> on two-dimensional arrays: NumPy broadcasts \<open>ref\<close> to the shape of \<open>pot\<close>
  (an axis of \<open>ref\<close> of length one is repeated) and raises ValueError when the shapes do
  not fit. The result has the shape of \<open>pot\<close> and is written into \<open>pot\<close>'s own storage.
\<close>

definition nrows :: "'a list list \<Rightarrow> nat" where
  "nrows m = length m"

definition ncols :: "'a list list \<Rightarrow> nat" where
  "ncols m = (case m of [] \<Rightarrow> 0 | r # _ \<Rightarrow> length r)"

definition np_iadd :: "mat \<Rightarrow> mat \<Rightarrow> error + mat" where
  "np_iadd pot ref =
     (if (nrows ref = nrows pot \<or> nrows ref = 1) \<and> (ncols ref = ncols pot \<or> ncols ref = 1)
      then Inr (map (\<lambda>i. map (\<lambda>j. pot ! i ! j
                          + ref ! (if nrows ref = 1 then 0 else i) ! (if ncols ref = 1 then 0 else j))
                        [0..<ncols pot])
                [0..<nrows pot])
      else Inl ValueError)"

definition perturb_fock ::
  "pyscf_api \<Rightarrow> pyval \<Rightarrow> heap \<times> scf_pyscf \<Rightarrow> (error + unit) \<times> heap \<times> scf_pyscf" where
  "perturb_fock api pot st =
     (case st of (h, self) \<Rightarrow>
        (case pot of
           PyArray a \<Rightarrow>
             (case get_hcore api (scf_object self) [] of
                Inl e \<Rightarrow> (Inl e, h, self)
              | Inr ref \<Rightarrow>
                  (case np_iadd (h a) (deref h ref) of
                     Inl e \<Rightarrow> (Inl e, h, self)
                   | Inr m \<Rightarrow>
                       (Inr (), h(a := m),
                        self\<lparr>scf_object := (scf_object self)
                               \<lparr>attrs := (attrs (scf_object self))(''get_hcore'' \<mapsto> PyLambda a)\<rparr>\<rparr>)))
         | _ \<Rightarrow> (Inl TypeError, h, self)))"

definition restore_scf_object :: "scf_pyscf \<Rightarrow> scf_pyscf" where
  "restore_scf_object self = self\<lparr>scf_object := copy (priv_scf_object self)\<rparr>"

text \<open>A sequence of perturb_fock calls, one per potential, whether a call raises or not.\<close>

definition perturb_fock_seq ::
  "pyscf_api \<Rightarrow> pyval list \<Rightarrow> heap \<times> scf_pyscf \<Rightarrow> heap \<times> scf_pyscf" where
  "perturb_fock_seq api pots st = fold (\<lambda>pot st. snd (perturb_fock api pot st)) pots st"

text \<open>
  \<open>**scfkwargs\<close> is a dict: the loop runs over its keys in order and reads each value
  back by its key. The statement in the loop body is \<open>self.scf_object.attr = ...\<close>.
\<close>

definition set_attr :: "string \<Rightarrow> pyval \<Rightarrow> solver \<Rightarrow> solver" where
  "set_attr name v obj = obj\<lparr>attrs := (attrs obj)(name \<mapsto> v)\<rparr>"

definition configure :: "kwargs \<Rightarrow> solver \<Rightarrow> solver" where
  "configure scfkwargs obj =
     fold (\<lambda>attr ob. case map_of scfkwargs attr of
                        None \<Rightarrow> ob
                      | Some v \<Rightarrow> set_attr ''attr'' v ob)
          (map fst scfkwargs) obj"

definition solve_scf ::
  "pyscf_api \<Rightarrow> heap \<Rightarrow> kwargs \<Rightarrow> scf_pyscf \<Rightarrow> (error + unit) \<times> scf_pyscf" where
  "solve_scf api h scfkwargs self =
     (let configured = configure scfkwargs (scf_object self) in
      case kernel api h configured of
        Inl e \<Rightarrow> (Inl e, self\<lparr>scf_object := configured\<rparr>)
      | Inr done \<Rightarrow>
          (Inr (), self\<lparr>scf_object := done,
                        energy := (energy self)(''scf'' \<mapsto> e_tot api done),
                        density := DensityArray (make_rdm1 api done)\<rparr>))"

subsection \<open>Supersystem geometry (fde_psi4.py, build_supersystem)\<close>

text \<open>
  \<open>mol.to_arrays()\<close> gives the geometry (one row of coordinates per atom, in Bohr) and
  the element symbols. Stacking symbols and coordinates into one array makes NumPy turn
  every coordinate into text; how a float is printed is the parameter \<open>fmt\<close>.
  \<open>psi4.geometry\<close> is external: build_supersystem is modelled up to the text it hands
  over.
\<close>

record psi4_molecule =
  geom :: mat
  elem :: "string list"

definition np_vstack :: "mat \<Rightarrow> mat \<Rightarrow> error + mat" where
  "np_vstack a b =
     (if a \<noteq> [] \<and> b \<noteq> [] \<and> ncols a \<noteq> ncols b then Inl ValueError else Inr (a @ b))"

definition reshape_column :: "string list \<Rightarrow> nat \<Rightarrow> error + string list list" where
  "reshape_column xs n = (if length xs = n then Inr (map (\<lambda>x. [x]) xs) else Inl ValueError)"

definition np_hstack :: "(real \<Rightarrow> string) \<Rightarrow> string list list \<Rightarrow> mat \<Rightarrow> error + string list list" where
  "np_hstack fmt a b =
     (if length a = length b then Inr (map2 (\<lambda>r q. r @ map fmt q) a b) else Inl ValueError)"

definition template_head :: string where
  "template_head = [CHR 0x0A] @ ''        0 1'' @ [CHR 0x0A] @ ''        ''"

definition template_tail :: string where
  "template_tail = [CHR 0x0A] @ ''        units au'' @ [CHR 0x0A] @ ''        symmetry c1''
     @ [CHR 0x0A] @ ''        no_reorient'' @ [CHR 0x0A] @ ''        no_com'' @ [CHR 0x0A]
     @ ''        ''"

definition build_supersystem ::
  "(real \<Rightarrow> string) \<Rightarrow> psi4_molecule \<Rightarrow> psi4_molecule \<Rightarrow> error + string" where
  "build_supersystem fmt mol1 mol2 =
     (let geom1 = geom mol1; elem1 = elem mol1;
          geom2 = geom mol2; elem2 = elem mol2
      in case np_vstack geom1 geom2 of
           Inl e \<Rightarrow> Inl e
         | Inr geom_merged \<Rightarrow>
             (case reshape_column (elem1 @ elem2) (length geom_merged) of
                Inl e \<Rightarrow> Inl e
              | Inr elem_merged \<Rightarrow>
                  (case np_hstack fmt elem_merged geom_merged of
                     Inl e \<Rightarrow> Inl e
                   | Inr m \<Rightarrow>
                       (let mol_string =
                              fold (\<lambda>a mol_string. mol_string @ join '' '' a @ [CHR 0x0A]) m []
                        in Inr (template_head @ mol_string @ template_tail)))))"

subsection \<open>Matrices (NumPy and SciPy operations used by run_co_h2o_psi4)\<close>

definition rect :: "'a list list \<Rightarrow> bool" where
  "rect m \<longleftrightarrow> (\<forall>r \<in> set m. length r = ncols m)"

definition zeros_like :: "mat \<Rightarrow> mat" where
  "zeros_like m = map (map (\<lambda>x. 0)) m"

definition block_diag :: "mat \<Rightarrow> mat \<Rightarrow> mat" where
  "block_diag a b =
     map (\<lambda>r. r @ replicate (ncols b) 0) a @ map (\<lambda>r. replicate (ncols a) 0 @ r) b"

definition mat_add :: "mat \<Rightarrow> mat \<Rightarrow> mat" where
  "mat_add a b = map2 (map2 (+)) a b"

definition mat_T :: "mat \<Rightarrow> mat" where
  "mat_T m = map (\<lambda>j. map (\<lambda>r. r ! j) m) [0..<ncols m]"

definition mat_scale :: "real \<Rightarrow> mat \<Rightarrow> mat" where
  "mat_scale c m = map (map ((*) c)) m"

text \<open>\<open>m[(lpos[:, None], lpos)]\<close>: the entries of \<open>m\<close> at the rows and columns \<open>lpos\<close>.\<close>

definition gather :: "mat \<Rightarrow> nat list \<Rightarrow> mat" where
  "gather m lpos = map (\<lambda>g. map (\<lambda>h. m ! g ! h) lpos) lpos"

text \<open>
  \<open>m[(lpos[:, None], lpos)] += s\<close>: NumPy reads the entries, adds \<open>s\<close> and assigns the
  sums back; where an index is repeated in \<open>lpos\<close> the last assignment stays.
\<close>

definition last_index :: "nat list \<Rightarrow> nat \<Rightarrow> nat option" where
  "last_index lpos g = find (\<lambda>i. lpos ! i = g) (rev [0..<length lpos])"

definition scatter_add :: "mat \<Rightarrow> nat list \<Rightarrow> mat \<Rightarrow> mat" where
  "scatter_add m lpos s =
     map (\<lambda>g. map (\<lambda>h. case last_index lpos g of
                           None \<Rightarrow> m ! g ! h
                         | Some i \<Rightarrow> (case last_index lpos h of
                                        None \<Rightarrow> m ! g ! h
                                      | Some j \<Rightarrow> m ! g ! h + s ! i ! j))
                    [0..<ncols m])
         [0..<nrows m]"

text \<open>\<open>np.einsum('pm,mn,pn->p', phi, d, phi)\<close> with \<open>d\<close> of shape \<open>(l, l)\<close>.\<close>

definition einsum_pm_mn_pn :: "nat \<Rightarrow> mat \<Rightarrow> mat \<Rightarrow> vec" where
  "einsum_pm_mn_pn l phi d =
     map (\<lambda>row. \<Sum>m\<leftarrow>[0..<l]. \<Sum>n\<leftarrow>[0..<l]. row ! m * d ! m ! n * row ! n) phi"

text \<open>\<open>np.einsum('a,a->', w, e)\<close>.\<close>

definition einsum_a_a :: "vec \<Rightarrow> vec \<Rightarrow> real" where
  "einsum_a_a w e = (\<Sum>a\<leftarrow>[0..<length w]. w ! a * e ! a)"

text \<open>\<open>np.einsum('pb,p,p,pa->ab', phi, v, w, phi)\<close> with \<open>phi\<close> of shape \<open>(p, l)\<close>.\<close>

definition einsum_pb_p_p_pa :: "nat \<Rightarrow> mat \<Rightarrow> vec \<Rightarrow> vec \<Rightarrow> mat" where
  "einsum_pb_p_p_pa l phi v w =
     map (\<lambda>a. map (\<lambda>b. \<Sum>p\<leftarrow>[0..<length phi]. phi ! p ! b * v ! p * w ! p * phi ! p ! a) [0..<l])
         [0..<l]"

text \<open>\<open>0.5 * (vtmp + vtmp.T)\<close>.\<close>

definition symmetrized :: "mat \<Rightarrow> mat" where
  "symmetrized vtmp = mat_scale (1 / 2) (mat_add vtmp (mat_T vtmp))"

subsection \<open>Non-additive functionals on the grid (fde_psi4.py, run_co_h2o_psi4)\<close>

text \<open>
  What Psi4 provides is a parameter of the model: the density matrices \<open>dma\<close> and \<open>dmb\<close>
  of the two subsystems, the grid blocks (for each block its number of points, its
  weights, the global indices of its basis functions and the table \<open>PHI\<close> of basis
  function values that \<open>points_func\<close> holds after \<open>compute_points(block)\<close>), and the
  functional: \<open>compute_functional\<close> maps the density on the points of a block to the
  vectors \<open>V\<close> (energy density) and \<open>V_RHO_A\<close> (its derivative). Each call of
  \<open>compute_functional\<close> is taken to return a result of its own, the value of the
  functional on the density passed in that call.
\<close>

record block =
  npoints :: nat
  w :: vec
  functions_local_to_global :: "nat list"
  PHI :: mat

record functional_result =
  V_out :: vec
  V_RHO_A_out :: vec

record locals =
  nelec_a :: real
  nelec_b :: real
  nelec_tot :: real
  exc_a :: real
  exc_b :: real
  exc_tot :: real
  et_a :: real
  et_b :: real
  et_tot :: real
  V :: mat
  Vt :: mat

text \<open>
  A run is followed while its numbers are real: when compute_kinetic_tf yields a nan the
  model ends the run with \<open>Inl NotANumber\<close>.
\<close>

definition no_nan :: "real option list \<times> real option list \<Rightarrow> error + vec \<times> vec" where
  "no_nan r =
     (case r of (et, vt) \<Rightarrow>
        (case those et of
           None \<Rightarrow> Inl NotANumber
         | Some e \<Rightarrow> (case those vt of None \<Rightarrow> Inl NotANumber | Some v \<Rightarrow> Inr (e, v))))"

text \<open>Indexing with \<open>lpos\<close> raises IndexError when an index is outside the matrix.\<close>

definition index_ok :: "mat \<Rightarrow> nat list \<Rightarrow> bool" where
  "index_ok m lpos \<longleftrightarrow> (\<forall>g \<in> set lpos. g < nrows m \<and> g < ncols m)"

text \<open>
  \<open>x -= y\<close> on vectors: \<open>y\<close> is broadcast to the shape of \<open>x\<close> when it has one entry;
  other differing lengths raise ValueError (checked where it is used).
\<close>

definition np_isub :: "vec \<Rightarrow> vec \<Rightarrow> vec" where
  "np_isub x y = map (\<lambda>i. x ! i - y ! (if length y = 1 then 0 else i)) [0..<length x]"

text \<open>
  One pass of the loop over the grid blocks. The shape conditions under which
  \<open>np.einsum\<close> raises ValueError are checked where the source calls it.
\<close>

definition block_step ::
  "(vec \<Rightarrow> functional_result) \<Rightarrow> mat \<Rightarrow> mat \<Rightarrow> mat \<Rightarrow> block \<Rightarrow> locals \<Rightarrow> error + locals" where
  "block_step compute_functional dm_both dma_sup dmb_sup blk st =
     (let npts = npoints blk;
          lpos = functions_local_to_global blk;
          wt = w blk;
          l = length lpos;
          phi = map (take l) (take npts (PHI blk))
      in
      if \<not> (index_ok dm_both lpos \<and> index_ok dma_sup lpos \<and> index_ok dmb_sup lpos)
      then Inl IndexError
      else if \<not> (\<forall>row \<in> set phi. length row = l) then Inl ValueError
      else
       (let lD = gather dm_both lpos;
            lDa = gather dma_sup lpos;
            lDb = gather dmb_sup lpos;
            rho = map ((*) 2) (einsum_pm_mn_pn l phi lD);
            rhoa = map ((*) 2) (einsum_pm_mn_pn l phi lDa);
            rhob = map ((*) 2) (einsum_pm_mn_pn l phi lDb);
            ret = compute_functional rho;
            vk_tot = take npts (V_out ret)
        in
        case no_nan (compute_kinetic_tf rho) of
          Inl e \<Rightarrow> Inl e
        | Inr (et, vt) \<Rightarrow>
           if length et \<noteq> length wt \<or> length vk_tot \<noteq> length wt then Inl ValueError
           else
            (let et_tot' = et_tot st + einsum_a_a wt et;
                 exc_tot' = exc_tot st + einsum_a_a wt vk_tot;
                 v_rho_tot = take npts (V_RHO_A_out ret);
                 vt_tot = vt;
                 reta = compute_functional rhoa;
                 vk_a = take npts (V_out ret)
             in
             case no_nan (compute_kinetic_tf rhoa) of
               Inl e \<Rightarrow> Inl e
             | Inr (et, vt) \<Rightarrow>
                if length vk_a \<noteq> length wt then Inl ValueError
                else
                 (let et_a' = et_a st + einsum_a_a wt et;
                      exc_a' = exc_a st + einsum_a_a wt vk_a;
                      v_rho_a = take npts (V_RHO_A_out reta);
                      vt_tot = map2 (-) vt_tot vt;
                      retb = compute_functional rhob;
                      vk_b = take npts (V_out retb)
                  in
                  case no_nan (compute_kinetic_tf rhob) of
                    Inl e \<Rightarrow> Inl e
                  | Inr (et, vt) \<Rightarrow>
                     if length vk_b \<noteq> length wt then Inl ValueError
                     else if \<not> (length v_rho_a = length v_rho_tot \<or> length v_rho_a = 1)
                     then Inl ValueError
                     else if length v_rho_tot \<noteq> length wt then Inl ValueError
                     else
                      (let et_b' = et_b st + einsum_a_a wt et;
                           exc_b' = exc_b st + einsum_a_a wt vk_b;
                           nelec_tot' = nelec_tot st + einsum_a_a wt rho;
                           nelec_a' = nelec_a st + einsum_a_a wt rhoa;
                           nelec_b' = nelec_b st + einsum_a_a wt rhob;
                           v_rho_tot = np_isub v_rho_tot v_rho_a;
                           Vtmp = einsum_pb_p_p_pa l phi v_rho_tot wt;
                           Vtmp2 = einsum_pb_p_p_pa l phi vt_tot wt
                       in Inr \<lparr>nelec_a = nelec_a', nelec_b = nelec_b', nelec_tot = nelec_tot',
                                exc_a = exc_a', exc_b = exc_b', exc_tot = exc_tot',
                                et_a = et_a', et_b = et_b', et_tot = et_tot',
                                V = scatter_add (V st) lpos (symmetrized Vtmp),
                                Vt = scatter_add (Vt st) lpos (symmetrized Vtmp2)\<rparr>)))))"

fun run_blocks ::
  "(vec \<Rightarrow> functional_result) \<Rightarrow> mat \<Rightarrow> mat \<Rightarrow> mat \<Rightarrow> block list \<Rightarrow> locals \<Rightarrow> error + locals" where
  "run_blocks f dm_both dma_sup dmb_sup [] st = Inr st"
| "run_blocks f dm_both dma_sup dmb_sup (b # bs) st =
     (case block_step f dm_both dma_sup dmb_sup b st of
        Inl e \<Rightarrow> Inl e
      | Inr st' \<Rightarrow> run_blocks f dm_both dma_sup dmb_sup bs st')"

definition initial_locals :: "mat \<Rightarrow> locals" where
  "initial_locals dm_both =
     \<lparr>nelec_a = 0, nelec_b = 0, nelec_tot = 0, exc_a = 0, exc_b = 0, exc_tot = 0,
      et_a = 0, et_b = 0, et_tot = 0, V = zeros_like dm_both, Vt = zeros_like dm_both\<rparr>"

text \<open>The three density matrices of the supersystem basis (lines 128 to 132).\<close>

definition dm_both_of :: "mat \<Rightarrow> mat \<Rightarrow> mat" where
  "dm_both_of dma dmb = block_diag dma dmb"

definition dma_sup_of :: "mat \<Rightarrow> mat \<Rightarrow> mat" where
  "dma_sup_of dma dmb = (let dbzeros = zeros_like dmb in block_diag dma dbzeros)"

definition dmb_sup_of :: "mat \<Rightarrow> mat \<Rightarrow> mat" where
  "dmb_sup_of dma dmb = (let dazeros = zeros_like dma in block_diag dazeros dmb)"

text \<open>The loop from its initial values, for the first \<open>k\<close> blocks or for all of them.\<close>

definition grid_loop ::
  "(vec \<Rightarrow> functional_result) \<Rightarrow> mat \<Rightarrow> mat \<Rightarrow> block list \<Rightarrow> error + locals" where
  "grid_loop f dma dmb blocks =
     run_blocks f (dm_both_of dma dmb) (dma_sup_of dma dmb) (dmb_sup_of dma dmb) blocks
       (initial_locals (dm_both_of dma dmb))"

text \<open>
  \<open>np.einsum('ab,ba', x, y)\<close>, and the values after the loop. \<open>V[:10, :10]\<close> never
  raises; the contraction with \<open>dma\<close> raises ValueError when the shapes do not fit.
\<close>

definition einsum_ab_ba :: "mat \<Rightarrow> mat \<Rightarrow> error + real" where
  "einsum_ab_ba x y =
     (if nrows x = ncols y \<and> ncols x = nrows y
      then Inr (\<Sum>a\<leftarrow>[0..<nrows x]. \<Sum>b\<leftarrow>[0..<ncols x]. x ! a ! b * y ! b ! a)
      else Inl ValueError)"

record energies =
  int_emb_xc :: real
  int_emb_t :: real
  enad_xc :: real
  enad_t :: real

definition nad_energies :: "mat \<Rightarrow> locals \<Rightarrow> error + energies" where
  "nad_energies dma st =
     (case einsum_ab_ba (map (take 10) (take 10 (V st))) dma of
        Inl e \<Rightarrow> Inl e
      | Inr x \<Rightarrow>
         (case einsum_ab_ba (map (take 10) (take 10 (Vt st))) dma of
            Inl e \<Rightarrow> Inl e
          | Inr t \<Rightarrow>
              Inr \<lparr>int_emb_xc = 2 * x, int_emb_t = 2 * t,
                   enad_xc = exc_tot st - exc_a st - exc_b st,
                   enad_t = et_tot st - et_a st - et_b st\<rparr>))"

definition run_co_h2o_psi4 ::
  "(vec \<Rightarrow> functional_result) \<Rightarrow> mat \<Rightarrow> mat \<Rightarrow> block list \<Rightarrow> error + unit" where
  "run_co_h2o_psi4 f dma dmb blocks =
     (case grid_loop f dma dmb blocks of
        Inl e \<Rightarrow> Inl e
      | Inr st \<Rightarrow>
         (case nad_energies dma st of
            Inl e \<Rightarrow> Inl e
          | Inr en \<Rightarrow>
              (let qchem_int_ref_xc = - 0.0011361532;
                   qchem_int_ref_t = 0.0022364179;
                   qchem_exc_nad = - 0.0021105605;
                   qchem_et_nad = 0.0030018734
               in if \<not> \<bar>qchem_et_nad - enad_t en\<bar> < 1 / 10 ^ 6 then Inl AssertionError
                  else if \<not> \<bar>qchem_exc_nad - enad_xc en\<bar> < 1 / 10 ^ 6 then Inl AssertionError
                  else if \<not> \<bar>qchem_int_ref_t - int_emb_t en\<bar> < 1 / 10 ^ 6 then Inl AssertionError
                  else if \<not> \<bar>qchem_int_ref_xc - int_emb_xc en\<bar> < 1 / 10 ^ 6 then Inl AssertionError
                  else Inr ())))"

text \<open>
  The values of \<open>phi\<close> and of the density (\<open>rho\<close>, \<open>rhoa\<close> or \<open>rhob\<close>, according to
  the density matrix) that a pass of the loop computes for a block.
\<close>

definition block_phi :: "block \<Rightarrow> mat" where
  "block_phi blk =
     map (take (length (functions_local_to_global blk))) (take (npoints blk) (PHI blk))"

definition block_rho :: "mat \<Rightarrow> block \<Rightarrow> vec" where
  "block_rho d blk =
     map ((*) 2) (einsum_pm_mn_pn (length (functions_local_to_global blk)) (block_phi blk)
                    (gather d (functions_local_to_global blk)))"

text \<open>Shapes: an \<open>n\<close> by \<open>n\<close> matrix, and one whose entries are symmetric.\<close>

definition square :: "nat \<Rightarrow> mat \<Rightarrow> bool" where
  "square n m \<longleftrightarrow> length m = n \<and> (\<forall>r \<in> set m. length r = n)"

definition sym_entries :: "nat \<Rightarrow> mat \<Rightarrow> bool" where
  "sym_entries n m \<longleftrightarrow> (\<forall>i < n. \<forall>j < n. m ! i ! j = m ! j ! i)"

subsection \<open>Statements of the specification\<close>


text \<open>
  The line of the geometry text for one atom: its symbol and its three coordinates,
  separated by single spaces.
\<close>

definition atom_line :: "(real \<Rightarrow> string) \<Rightarrow> string \<times> real list \<Rightarrow> string" where
  "atom_line fmt a =
     (case a of (e, r) \<Rightarrow>
        e @ '' '' @ fmt (r ! 0) @ '' '' @ fmt (r ! 1) @ '' '' @ fmt (r ! 2) @ [CHR 0x0A])"



subsection \<open>Example inputs\<close>

text \<open>Concrete inputs on which the theorems below are instantiated.\<close>

definition api0 :: pyscf_api where
  "api0 = \<lparr>kernel = (\<lambda>h obj. Inr obj), e_tot = (\<lambda>obj. - 75), make_rdm1 = (\<lambda>obj. [[1]]),
           class_get_hcore = (\<lambda>obj args. Inr [[2]])\<rparr>"

definition mol0 :: molecule where
  "mol0 = \<lparr>is_Molecule = True, molecular_multiplicity = Some 1,
           to_string_xyz = ''1'' @ [CHR 0x0A] @ ''0 1 He'' @ [CHR 0x0A] @ ''He 0.0 0.0 0.0''\<rparr>"

definition h0 :: heap where
  "h0 = (\<lambda>a. [[1]])"

definition self0 :: scf_pyscf where
  "self0 = \<lparr>mol = mol0, new = True, density = DensityList [], energy = Map.empty,
       mol_pyscf = \<lparr>atom = ''He 0.0 0.0 0.0'', basis = ''sto-3g'', spin = 0\<rparr>,
       scf_object = \<lparr>solver_class = RHF,
          solver_mol = \<lparr>atom = ''He 0.0 0.0 0.0'', basis = ''sto-3g'', spin = 0\<rparr>,
          attrs = Map.empty\<rparr>,
       priv_scf_object = \<lparr>solver_class = RHF,
          solver_mol = \<lparr>atom = ''He 0.0 0.0 0.0'', basis = ''sto-3g'', spin = 0\<rparr>,
          attrs = Map.empty\<rparr>\<rparr>"

definition self1 :: scf_pyscf where
  "self1 = self0\<lparr>scf_object := (scf_object self0)\<lparr>attrs := [''get_hcore'' \<mapsto> PyLambda 0]\<rparr>\<rparr>"


definition fmtX :: "real \<Rightarrow> string" where
  "fmtX x = (if x = 0 then ''0.0'' else ''2.13'')"

definition molA :: psi4_molecule where
  "molA = \<lparr>geom = [[0, 0, 0]], elem = [''C'']\<rparr>"

definition molB :: psi4_molecule where
  "molB = \<lparr>geom = [[0, 0, 2.13]], elem = [''O'']\<rparr>"

definition dmaX :: mat where
  "dmaX = (1 / 2 # replicate 9 0) # replicate 9 (replicate 10 0)"

definition dmbX :: mat where
  "dmbX = [[1 / 2]]"

definition blockX :: block where
  "blockX = \<lparr>npoints = 1, w = [1], functions_local_to_global = [0, 10], PHI = [[1, 1]]\<rparr>"

definition fX :: "vec \<Rightarrow> functional_result" where
  "fX rho = \<lparr>V_out = map (\<lambda>r. r * r) rho, V_RHO_A_out = map (\<lambda>r. 2 * r) rho\<rparr>"

section \<open>Properties\<close>

lemma powr_two_thirds_times:
  fixes r :: real
  assumes "0 \<le> r"
  shows "r powr (2 / 3) * r = r powr (5 / 3)"
proof (cases "r = 0")
  case True
  then show ?thesis by simp
next
  case False
  with assms have pos: "0 < r" by simp
  have "r powr (2 / 3) * r = r powr (2 / 3) * r powr 1"
    using pos by simp
  also have "\<dots> = r powr (2 / 3 + 1)"
    by (simp only: powr_add)
  also have "(2 / 3 + 1 :: real) = 5 / 3"
    by simp
  finally show ?thesis .
qed

text \<open>
  Claim C4. For a density array without negative entries, compute_kinetic_tf returns
  \<open>et = 2.8712 * rho^(5/3)\<close> and \<open>vt = 2.8712 * (5/3) * rho^(2/3)\<close> elementwise (no nan
  among them); at every point \<open>vt * rho = (5/3) * et\<close>, and at every point of positive
  density \<open>vt\<close> is the derivative of the energy density \<open>2.8712 * x^(5/3)\<close> at \<open>rho\<close>.
\<close>

theorem compute_kinetic_tf_spec:
  assumes nonneg: "\<forall>r \<in> set rho. 0 \<le> r"
  shows "\<exists>et vt. compute_kinetic_tf rho = (map Some et, map Some vt)
           \<and> et = map (\<lambda>r. 2.8712 * r powr (5 / 3)) rho
           \<and> vt = map (\<lambda>r. 2.8712 * (5 / 3) * r powr (2 / 3)) rho
           \<and> (\<forall>i < length rho. vt ! i * rho ! i = 5 / 3 * et ! i)
           \<and> (\<forall>i < length rho. 0 < rho ! i \<longrightarrow>
                 ((\<lambda>x. 2.8712 * x powr (5 / 3)) has_real_derivative vt ! i) (at (rho ! i)))"
proof -
  let ?et = "map (\<lambda>r. 2.8712 * r powr (5 / 3)) rho"
  let ?vt = "map (\<lambda>r. 2.8712 * (5 / 3) * r powr (2 / 3)) rho"
  have run: "compute_kinetic_tf rho = (map Some ?et, map Some ?vt)"
    using nonneg by (auto simp add: compute_kinetic_tf_def np_power_def cf_def not_less)
  have ident: "\<forall>i < length rho. ?vt ! i * rho ! i = 5 / 3 * ?et ! i"
  proof (intro allI impI)
    fix i assume i: "i < length rho"
    then have "0 \<le> rho ! i" using nonneg by simp
    then have "(rho ! i) powr (2 / 3) * rho ! i = (rho ! i) powr (5 / 3)"
      by (rule powr_two_thirds_times)
    then have "2.8712 * (5 / 3) * ((rho ! i) powr (2 / 3) * rho ! i)
                 = 5 / 3 * (2.8712 * (rho ! i) powr (5 / 3))"
      by simp
    then show "?vt ! i * rho ! i = 5 / 3 * ?et ! i"
      using i by (simp add: mult.assoc)
  qed
  have deriv: "\<forall>i < length rho. 0 < rho ! i \<longrightarrow>
      ((\<lambda>x. 2.8712 * x powr (5 / 3)) has_real_derivative ?vt ! i) (at (rho ! i))"
  proof (intro allI impI)
    fix i assume i: "i < length rho" and pos: "0 < rho ! i"
    have "((\<lambda>x. 2.8712 * x powr (5 / 3)) has_real_derivative
            2.8712 * (5 / 3 * (rho ! i) powr (5 / 3 - 1))) (at (rho ! i))"
      using pos by (auto intro!: derivative_eq_intros)
    moreover have "(5 / 3 - 1 :: real) = 2 / 3" by simp
    ultimately show "((\<lambda>x. 2.8712 * x powr (5 / 3)) has_real_derivative ?vt ! i) (at (rho ! i))"
      using i by (simp add: mult.assoc)
  qed
  from run ident deriv show ?thesis by blast
qed

theorem compute_kinetic_tf_spec_witness:
  "compute_kinetic_tf [0, 1] = ([Some 0, Some 2.8712], [Some 0, Some (2.8712 * (5 / 3))])
   \<and> ((\<lambda>x. 2.8712 * x powr (5 / 3)) has_real_derivative 2.8712 * (5 / 3)) (at (1 :: real))"
proof -
  have h: "\<forall>r \<in> set [0, 1 :: real]. 0 \<le> r" by simp
  from compute_kinetic_tf_spec [OF h] obtain et vt where
    run: "compute_kinetic_tf [0, 1] = (map Some et, map Some vt)" and
    et: "et = map (\<lambda>r. 2.8712 * r powr (5 / 3)) [0, 1 :: real]" and
    vt: "vt = map (\<lambda>r. 2.8712 * (5 / 3) * r powr (2 / 3)) [0, 1 :: real]" and
    deriv: "\<forall>i < length [0, 1 :: real]. 0 < [0, 1 :: real] ! i \<longrightarrow>
      ((\<lambda>x. 2.8712 * x powr (5 / 3)) has_real_derivative vt ! i) (at ([0, 1 :: real] ! i))"
    by blast
  have lt: "(1 :: nat) < length [0, 1 :: real]" by simp
  have pos: "0 < [0, 1 :: real] ! 1" by simp
  have v1: "vt ! 1 = 2.8712 * (5 / 3)" by (simp add: vt)
  have n1: "[0, 1 :: real] ! 1 = 1" by simp
  note d = deriv [rule_format, OF lt pos]
  have "((\<lambda>x. 2.8712 * x powr (5 / 3)) has_real_derivative 2.8712 * (5 / 3)) (at (1 :: real))"
    using d unfolding v1 n1 .
  with run et vt show ?thesis by simp
qed

lemma get_density_cached:
  "density self = DensityList ds \<Longrightarrow> ds \<noteq> [] \<Longrightarrow>
     get_density ne_nil solve self = (Inr (density self), self)"
  by (simp add: get_density_def density_ne_nil_def)

lemma get_energy_cached:
  "energy self ''scf'' = Some e \<Longrightarrow> e \<noteq> 0 \<Longrightarrow> get_energy solve self = (Inr e, self)"
  by (simp add: get_energy_def energy_item_def)

lemma get_energy_zero:
  "energy self ''scf'' = Some 0 \<Longrightarrow>
     get_energy solve self =
       (case solve [(''conv_tol'', PyFloat (1 / 10 ^ 12))] self of
          (Inl err, self') \<Rightarrow> (Inl err, self')
        | (Inr u, self') \<Rightarrow> energy_item self')"
  by (simp add: get_energy_def)

text \<open>
  Claim C10. get_density returns the stored density, running nothing, whenever the
  density list is not empty. get_energy returns the stored energy, running nothing, only
  when \<open>energy['scf']\<close> is there and is not zero; when the stored energy is exactly 0 it
  calls \<open>solve_scf(conv_tol=1e-12)\<close> and returns the energy found afterwards.
\<close>

theorem caching_asymmetric:
  "(density self = DensityList ds \<and> ds \<noteq> [] \<longrightarrow>
      get_density ne_nil solve self = (Inr (density self), self))
   \<and> (energy self ''scf'' = Some e \<and> e \<noteq> 0 \<longrightarrow> get_energy solve self = (Inr e, self))
   \<and> (energy self ''scf'' = Some 0 \<longrightarrow>
        get_energy solve self =
          (case solve [(''conv_tol'', PyFloat (1 / 10 ^ 12))] self of
             (Inl err, self') \<Rightarrow> (Inl err, self')
           | (Inr u, self') \<Rightarrow> energy_item self'))"
  using get_density_cached get_energy_cached get_energy_zero by blast

lemma perturb_fock_not_array:
  "(\<forall>a. pot \<noteq> PyArray a) \<Longrightarrow> perturb_fock api pot (h, self) = (Inl TypeError, h, self)"
  by (cases pot) (simp_all add: perturb_fock_def)

lemma np_iadd_same_shape:
  assumes "np_iadd p r = Inr m" "nrows r = nrows p" "ncols r = ncols p"
    "i < nrows p" "j < ncols p"
  shows "m ! i ! j = p ! i ! j + r ! i ! j"
proof -
  have "nrows p \<noteq> 1 \<or> i = 0" using assms(4) by auto
  moreover have "ncols p \<noteq> 1 \<or> j = 0" using assms(5) by auto
  ultimately show ?thesis
    using assms by (auto simp add: np_iadd_def split: if_splits)
qed

lemma perturb_fock_returns:
  assumes "perturb_fock api (PyArray a) (h, self) = (Inr (), h', self')"
  shows "\<exists>ref. get_hcore api (scf_object self) [] = Inr ref
           \<and> np_iadd (h a) (deref h ref) = Inr (h' a)
           \<and> (\<forall>b. b \<noteq> a \<longrightarrow> h' b = h b)
           \<and> (\<forall>args. get_hcore api (scf_object self') args = Inr (Ref a))"
  using assms
  by (auto simp add: perturb_fock_def get_hcore_def split: sum.splits option.splits pyval.splits)

lemma init_mol0: "ScfPyScf_init mol0 ''sto-3g'' ''HF'' None = Inr self0"
proof -
  have low: "lower ''HF'' = ''hf''" by code_simp
  have pm: "get_pyscf_molecule mol0 ''sto-3g''
              = Inr \<lparr>atom = ''He 0.0 0.0 0.0'', basis = ''sto-3g'', spin = 0\<rparr>"
    by code_simp
  have m: "is_Molecule mol0" "molecular_multiplicity mol0 = Some 1"
    by (simp_all add: mol0_def)
  show ?thesis
    by (simp add: ScfPyScf_init_def ScfMethod_init_def low pm m restricted_def copy_def self0_def
        with_solver_def Let_def)
qed

text \<open>
  Claim C8. perturb_fock raises TypeError when \<open>pot\<close> is not an ndarray, and then heap and
  solver are as before. When it returns, the caller's array holds the old potential plus
  the matrix that get_hcore returned (entry by entry when the shapes agree), no other
  array has changed, and get_hcore of the solver now returns that very array, whatever
  the arguments.
\<close>

theorem perturb_fock_in_place:
  "((\<forall>a. pot \<noteq> PyArray a) \<longrightarrow> perturb_fock api pot (h, self) = (Inl TypeError, h, self))
   \<and> (perturb_fock api (PyArray a) (h, self) = (Inr (), h', self') \<longrightarrow>
        (\<exists>ref hc. get_hcore api (scf_object self) [] = Inr ref \<and> hc = deref h ref
           \<and> np_iadd (h a) hc = Inr (h' a)
           \<and> (nrows hc = nrows (h a) \<and> ncols hc = ncols (h a) \<longrightarrow>
                (\<forall>i < nrows (h a). \<forall>j < ncols (h a). h' a ! i ! j = h a ! i ! j + hc ! i ! j))
           \<and> (\<forall>b. b \<noteq> a \<longrightarrow> h' b = h b)
           \<and> (\<forall>args. get_hcore api (scf_object self') args = Inr (Ref a))))"
proof (intro conjI impI)
  assume "\<forall>a. pot \<noteq> PyArray a"
  then show "perturb_fock api pot (h, self) = (Inl TypeError, h, self)"
    by (rule perturb_fock_not_array)
next
  assume run: "perturb_fock api (PyArray a) (h, self) = (Inr (), h', self')"
  from perturb_fock_returns [OF run] obtain ref where
    gh: "get_hcore api (scf_object self) [] = Inr ref" and
    sum: "np_iadd (h a) (deref h ref) = Inr (h' a)" and
    others: "\<forall>b. b \<noteq> a \<longrightarrow> h' b = h b" and
    aliased: "\<forall>args. get_hcore api (scf_object self') args = Inr (Ref a)"
    by blast
  have "nrows (deref h ref) = nrows (h a) \<and> ncols (deref h ref) = ncols (h a) \<longrightarrow>
          (\<forall>i < nrows (h a). \<forall>j < ncols (h a).
             h' a ! i ! j = h a ! i ! j + deref h ref ! i ! j)"
    using np_iadd_same_shape [OF sum] by blast
  with gh sum others aliased
  show "\<exists>ref hc. get_hcore api (scf_object self) [] = Inr ref \<and> hc = deref h ref
           \<and> np_iadd (h a) hc = Inr (h' a)
           \<and> (nrows hc = nrows (h a) \<and> ncols hc = ncols (h a) \<longrightarrow>
                (\<forall>i < nrows (h a). \<forall>j < ncols (h a). h' a ! i ! j = h a ! i ! j + hc ! i ! j))
           \<and> (\<forall>b. b \<noteq> a \<longrightarrow> h' b = h b)
           \<and> (\<forall>args. get_hcore api (scf_object self') args = Inr (Ref a))"
    by blast
qed

lemma perturb_self0: "perturb_fock api0 (PyArray 0) (h0, self0) = (Inr (), h0(0 := [[3]]), self1)"
  by (simp add: perturb_fock_def get_hcore_def api0_def self0_def self1_def h0_def np_iadd_def
      nrows_def ncols_def deref_def)

theorem perturb_fock_in_place_witness:
  "perturb_fock api0 (PyFloat 1) (h0, self0) = (Inl TypeError, h0, self0)
   \<and> perturb_fock api0 (PyArray 0) (h0, self0) = (Inr (), h0(0 := [[3]]), self1)
   \<and> (h0(0 := [[3]])) 0 ! 0 ! 0 = h0 0 ! 0 ! 0 + 2
   \<and> get_hcore api0 (scf_object self1) [PyNone, PyFloat 4] = Inr (Ref 0)"
proof -
  have notarr: "\<forall>a. PyFloat 1 \<noteq> PyArray a" by simp
  note inst = perturb_fock_in_place [of "PyFloat 1" api0 h0 self0 0 "h0(0 := [[3]])" self1]
  from inst notarr have raise: "perturb_fock api0 (PyFloat 1) (h0, self0) = (Inl TypeError, h0, self0)"
    by blast
  from inst perturb_self0 obtain ref hc where
    gh: "get_hcore api0 (scf_object self0) [] = Inr ref" and hc: "hc = deref h0 ref" and
    same: "nrows hc = nrows (h0 0) \<and> ncols hc = ncols (h0 0) \<longrightarrow>
        (\<forall>i < nrows (h0 0). \<forall>j < ncols (h0 0).
           (h0(0 := [[3]])) 0 ! i ! j = h0 0 ! i ! j + hc ! i ! j)" and
    aliased: "\<forall>args. get_hcore api0 (scf_object self1) args = Inr (Ref 0)"
    by blast
  have hcv: "hc = [[2]]"
    using gh hc by (auto simp add: get_hcore_def api0_def self0_def deref_def)
  from same hcv have "(h0(0 := [[3]])) 0 ! 0 ! 0 = h0 0 ! 0 ! 0 + 2"
    by (simp add: nrows_def ncols_def h0_def)
  with raise perturb_self0 aliased show ?thesis by blast
qed

lemma perturb_fock_priv:
  "priv_scf_object (snd (snd (perturb_fock api pot st))) = priv_scf_object (snd st)"
  by (cases st)
     (auto simp add: perturb_fock_def split: sum.splits option.splits pyval.splits)

lemma perturb_fock_seq_priv:
  "priv_scf_object (snd (perturb_fock_seq api pots st)) = priv_scf_object (snd st)"
  unfolding perturb_fock_seq_def
  by (induction pots arbitrary: st) (simp_all add: perturb_fock_priv)

lemma ScfPyScf_init_clean:
  assumes "ScfPyScf_init m bas method xc_code = Inr self"
  shows "priv_scf_object self = scf_object self \<and> attrs (scf_object self) ''get_hcore'' = None"
  using assms
  by (auto simp add: ScfPyScf_init_def copy_def with_solver_def Let_def
      split: sum.splits option.splits if_splits bool.splits)

text \<open>
  Claim C9. The constructor keeps a clean copy of the solver. After any sequence of
  perturb_fock calls, restore_scf_object makes scf_object equal to the solver as
  constructed: its get_hcore is the method of the class again and no longer returns a
  perturbed potential.
\<close>

theorem restore_round_trip:
  assumes init: "ScfPyScf_init m bas method xc_code = Inr self0"
  shows "priv_scf_object self0 = scf_object self0
     \<and> scf_object (restore_scf_object (snd (perturb_fock_seq api pots (h, self0)))) = scf_object self0
     \<and> (\<forall>args. get_hcore api (scf_object (restore_scf_object (snd (perturb_fock_seq api pots (h, self0))))) args
           = (case class_get_hcore api (scf_object self0) args of
                Inl e \<Rightarrow> Inl e | Inr m \<Rightarrow> Inr (Fresh m)))"
proof -
  from ScfPyScf_init_clean [OF init] have clean: "priv_scf_object self0 = scf_object self0"
    and nohc: "attrs (scf_object self0) ''get_hcore'' = None" by simp_all
  have "priv_scf_object (snd (perturb_fock_seq api pots (h, self0))) = priv_scf_object self0"
    using perturb_fock_seq_priv [of api pots "(h, self0)"] by simp
  then have restored: "scf_object (restore_scf_object (snd (perturb_fock_seq api pots (h, self0))))
                     = scf_object self0"
    using clean by (simp add: restore_scf_object_def copy_def)
  show ?thesis
    using clean restored nohc by (simp add: get_hcore_def)
qed

theorem restore_round_trip_witness:
  "get_hcore api0 (scf_object (snd (perturb_fock_seq api0 [PyArray 0, PyNone, PyArray 1] (h0, self0)))) []
      = Inr (Ref 1)
   \<and> scf_object (restore_scf_object (snd (perturb_fock_seq api0 [PyArray 0, PyNone, PyArray 1] (h0, self0))))
      = scf_object self0
   \<and> get_hcore api0 (scf_object (restore_scf_object
          (snd (perturb_fock_seq api0 [PyArray 0, PyNone, PyArray 1] (h0, self0))))) []
      = Inr (Fresh [[2]])"
proof -
  have before: "get_hcore api0 (scf_object (snd (perturb_fock_seq api0 [PyArray 0, PyNone, PyArray 1] (h0, self0)))) []
      = Inr (Ref 1)"
    by (simp add: perturb_fock_seq_def perturb_fock_def get_hcore_def api0_def self0_def h0_def
        np_iadd_def nrows_def ncols_def deref_def)
  from restore_round_trip [OF init_mol0, of api0 "[PyArray 0, PyNone, PyArray 1]" h0]
  have restored: "scf_object (restore_scf_object (snd (perturb_fock_seq api0 [PyArray 0, PyNone, PyArray 1] (h0, self0))))
      = scf_object self0"
    and hc: "\<forall>args. get_hcore api0 (scf_object (restore_scf_object
          (snd (perturb_fock_seq api0 [PyArray 0, PyNone, PyArray 1] (h0, self0))))) args
        = (case class_get_hcore api0 (scf_object self0) args of
                Inl e \<Rightarrow> Inl e | Inr m \<Rightarrow> Inr (Fresh m))"
    by blast+
  from hc have "get_hcore api0 (scf_object (restore_scf_object
          (snd (perturb_fock_seq api0 [PyArray 0, PyNone, PyArray 1] (h0, self0))))) []
      = Inr (Fresh [[2]])"
    by (simp add: api0_def)
  with before restored show ?thesis by blast
qed

text \<open>
  Claim C5. \<open>solve_scf(conv_tol=1e-12)\<close> on a new object: the call returns, energy and
  density are stored, but the solver has no attribute conv_tol of its own afterwards;
  the value was assigned to the attribute named \<open>attr\<close>.
\<close>

theorem solve_scf_sets_attr:
  "(case solve_scf api0 h0 [(''conv_tol'', PyFloat (1 / 10 ^ 12))] self0 of
      (r, self') \<Rightarrow>
        r = Inr ()
        \<and> attrs (scf_object self') ''conv_tol'' = attrs (scf_object self0) ''conv_tol''
        \<and> attrs (scf_object self') ''conv_tol'' = None
        \<and> attrs (scf_object self') ''attr'' = Some (PyFloat (1 / 10 ^ 12))
        \<and> energy self' ''scf'' = Some (- 75)
        \<and> density self' = DensityArray [[1]])"
  by (simp add: solve_scf_def configure_def set_attr_def api0_def self0_def)

theorem caching_asymmetric_witness:
  "get_density (\<lambda>m. Inr True) (solve_scf api0 h0) (self0\<lparr>density := DensityList [[[1]]]\<rparr>)
     = (Inr (DensityList [[[1]]]), self0\<lparr>density := DensityList [[[1]]]\<rparr>)
   \<and> get_energy (solve_scf api0 h0) (self0\<lparr>energy := [''scf'' \<mapsto> 5]\<rparr>)
     = (Inr 5, self0\<lparr>energy := [''scf'' \<mapsto> 5]\<rparr>)
   \<and> fst (get_energy (solve_scf api0 h0) (self0\<lparr>energy := [''scf'' \<mapsto> 0]\<rparr>)) = Inr (- 75)"
proof -
  have a: "get_density (\<lambda>m. Inr True) (solve_scf api0 h0) (self0\<lparr>density := DensityList [[[1]]]\<rparr>)
     = (Inr (DensityList [[[1]]]), self0\<lparr>density := DensityList [[[1]]]\<rparr>)"
    using caching_asymmetric [of "self0\<lparr>density := DensityList [[[1]]]\<rparr>" "[[[1]]]"
        "\<lambda>m. Inr True" "solve_scf api0 h0" 0]
    by simp
  have b: "get_energy (solve_scf api0 h0) (self0\<lparr>energy := [''scf'' \<mapsto> 5]\<rparr>)
     = (Inr 5, self0\<lparr>energy := [''scf'' \<mapsto> 5]\<rparr>)"
    using caching_asymmetric [of "self0\<lparr>energy := [''scf'' \<mapsto> 5]\<rparr>" "[]"
        "\<lambda>m. Inr True" "solve_scf api0 h0" 5]
    by simp
  have c: "fst (get_energy (solve_scf api0 h0) (self0\<lparr>energy := [''scf'' \<mapsto> 0]\<rparr>)) = Inr (- 75)"
    using caching_asymmetric [of "self0\<lparr>energy := [''scf'' \<mapsto> 0]\<rparr>" "[]"
        "\<lambda>m. Inr True" "solve_scf api0 h0" 0]
    by (simp add: solve_scf_def configure_def set_attr_def api0_def energy_item_def)
  from a b c show ?thesis by blast
qed







lemma fold_append_concat:
  "fold (\<lambda>a acc. acc @ g a) xs acc0 = acc0 @ concat (map g xs)"
  by (induction xs arbitrary: acc0) simp_all

lemma row3: "length r = 3 \<Longrightarrow> r = [r ! 0, r ! 1, r ! 2]"
  by (cases r; cases "tl r"; cases "tl (tl r)") auto

lemma join_row:
  assumes "length r = 3"
  shows "join '' '' (e # map fmt r) @ [CHR 0x0A] = atom_line fmt (e, r)"
proof -
  from row3 [OF assms] obtain x y z where r: "r = [x, y, z]" by blast
  show ?thesis by (simp add: r atom_line_def)
qed

lemma hstack_rows:
  "map2 (\<lambda>r q. r @ map fmt q) (map (\<lambda>x. [x]) es) gs = map (\<lambda>(e, q). e # map fmt q) (zip es gs)"
  by (simp add: zip_map1 case_prod_unfold)

text \<open>
  Claim C7. For two molecules whose arrays are consistent (one symbol per row of the
  geometry, three coordinates per row), the text that build_supersystem hands to
  \<open>psi4.geometry\<close> has the charge and multiplicity line \<open>0 1\<close>, then one line per atom,
  the atoms of \<open>mol1\<close> followed by those of \<open>mol2\<close>, each with its own symbol and its own
  coordinates, then \<open>units au\<close> and the remaining options.
\<close>

theorem build_supersystem_atoms:
  assumes l1: "length (elem mol1) = length (geom mol1)"
    and l2: "length (elem mol2) = length (geom mol2)"
    and xyz: "\<forall>r \<in> set (geom mol1 @ geom mol2). length r = 3"
  shows "build_supersystem fmt mol1 mol2 =
     Inr ([CHR 0x0A] @ ''        0 1'' @ [CHR 0x0A] @ ''        ''
          @ concat (map (atom_line fmt) (zip (elem mol1) (geom mol1) @ zip (elem mol2) (geom mol2)))
          @ [CHR 0x0A] @ ''        units au'' @ [CHR 0x0A] @ ''        symmetry c1''
          @ [CHR 0x0A] @ ''        no_reorient'' @ [CHR 0x0A] @ ''        no_com'' @ [CHR 0x0A]
          @ ''        '')"
proof -
  let ?g = "geom mol1 @ geom mol2"
  let ?e = "elem mol1 @ elem mol2"
  have cols: "geom mol1 \<noteq> [] \<Longrightarrow> geom mol2 \<noteq> [] \<Longrightarrow> ncols (geom mol1) = ncols (geom mol2)"
    using xyz by (cases "geom mol1"; cases "geom mol2") (auto simp add: ncols_def)
  then have vs: "np_vstack (geom mol1) (geom mol2) = Inr ?g"
    by (auto simp add: np_vstack_def)
  have rs: "reshape_column ?e (length ?g) = Inr (map (\<lambda>x. [x]) ?e)"
    using l1 l2 by (simp add: reshape_column_def)
  have hs: "np_hstack fmt (map (\<lambda>x. [x]) ?e) ?g
              = Inr (map2 (\<lambda>r q. r @ map fmt q) (map (\<lambda>x. [x]) ?e) ?g)"
    using l1 l2 by (simp add: np_hstack_def)
  have rows: "map2 (\<lambda>r q. r @ map fmt q) (map (\<lambda>x. [x]) ?e) ?g
                = map (\<lambda>(e, q). e # map fmt q) (zip ?e ?g)"
    by (rule hstack_rows)
  have z: "zip ?e ?g = zip (elem mol1) (geom mol1) @ zip (elem mol2) (geom mol2)"
    using l1 by simp
  have m1: "map (\<lambda>a. join '' '' a @ [CHR 0x0A]) (map (\<lambda>(e, q). e # map fmt q) (zip ?e ?g))
              = map (\<lambda>a. join '' '' (fst a # map fmt (snd a)) @ [CHR 0x0A]) (zip ?e ?g)"
    by (simp add: case_prod_unfold)
  have m2: "map (\<lambda>a. join '' '' (fst a # map fmt (snd a)) @ [CHR 0x0A]) (zip ?e ?g)
              = map (atom_line fmt) (zip ?e ?g)"
  proof (rule map_cong [OF refl])
    fix a assume "a \<in> set (zip ?e ?g)"
    then have "snd a \<in> set ?g" by (metis in_set_zipE prod.collapse)
    then have "length (snd a) = 3" using xyz by blast
    from join_row [OF this, of "fst a" fmt]
    show "join '' '' (fst a # map fmt (snd a)) @ [CHR 0x0A] = atom_line fmt a" by simp
  qed
  have lines: "concat (map (\<lambda>a. join '' '' a @ [CHR 0x0A]) (map (\<lambda>(e, q). e # map fmt q) (zip ?e ?g)))
                 = concat (map (atom_line fmt) (zip ?e ?g))"
    by (simp only: m1 m2)
  have "build_supersystem fmt mol1 mol2
          = Inr (template_head @ concat (map (atom_line fmt) (zip ?e ?g)) @ template_tail)"
    unfolding build_supersystem_def Let_def
    by (simp only: vs rs hs rows sum.case fold_append_concat lines append_Nil)
  then show ?thesis
    unfolding z by (simp add: template_head_def template_tail_def)
qed

theorem build_supersystem_atoms_witness:
  "build_supersystem fmtX molA molB =
     Inr ([CHR 0x0A] @ ''        0 1'' @ [CHR 0x0A] @ ''        ''
          @ ''C 0.0 0.0 0.0'' @ [CHR 0x0A] @ ''O 0.0 0.0 2.13'' @ [CHR 0x0A]
          @ [CHR 0x0A] @ ''        units au'' @ [CHR 0x0A] @ ''        symmetry c1''
          @ [CHR 0x0A] @ ''        no_reorient'' @ [CHR 0x0A] @ ''        no_com'' @ [CHR 0x0A]
          @ ''        '')"
proof -
  have l1: "length (elem molA) = length (geom molA)" by (simp add: molA_def)
  have l2: "length (elem molB) = length (geom molB)" by (simp add: molB_def)
  have xyz: "\<forall>r \<in> set (geom molA @ geom molB). length r = 3" by (simp add: molA_def molB_def)
  from build_supersystem_atoms [OF l1 l2 xyz, of fmtX]
  show ?thesis by (simp add: molA_def molB_def atom_line_def fmtX_def)
qed

lemma length_those: "those xs = Some ys \<Longrightarrow> length ys = length xs"
  by (induction xs arbitrary: ys) (auto split: option.splits)

lemma no_nan_length:
  assumes "no_nan (compute_kinetic_tf rho) = Inr (et, vt)"
  shows "length et = length rho" "length vt = length rho"
  using assms
  by (auto simp add: no_nan_def compute_kinetic_tf_def split: option.splits dest!: length_those)

lemma those_map_Some:
  "those (map (\<lambda>r. map_option g (np_power r y)) rho) = Some e
     \<Longrightarrow> (\<forall>r \<in> set rho. 0 \<le> r) \<and> e = map (\<lambda>r. g (r powr y)) rho"
  by (induction rho arbitrary: e)
     (auto simp add: np_power_def split: option.splits if_splits)

lemma no_nan_values:
  assumes "no_nan (compute_kinetic_tf rho) = Inr (et, vt)"
  shows "(\<forall>r \<in> set rho. 0 \<le> r)
    \<and> et = map (\<lambda>r. 2.8712 * r powr (5 / 3)) rho
    \<and> vt = map (\<lambda>r. 2.8712 * 5 / 3 * r powr (2 / 3)) rho"
  using assms
  by (auto simp add: no_nan_def compute_kinetic_tf_def cf_def split: option.splits
      dest!: those_map_Some)

lemma those_map_Some_nonneg:
  "\<forall>r \<in> set rho. 0 \<le> r
     \<Longrightarrow> those (map (\<lambda>r. map_option g (np_power r y)) rho) = Some (map (\<lambda>r. g (r powr y)) rho)"
  by (induction rho) (simp_all add: np_power_def)

lemma no_nan_nonneg:
  assumes "\<forall>r \<in> set rho. 0 \<le> r"
  shows "no_nan (compute_kinetic_tf rho)
           = Inr (map (\<lambda>r. 2.8712 * r powr (5 / 3)) rho,
                  map (\<lambda>r. 2.8712 * 5 / 3 * r powr (2 / 3)) rho)"
  using assms
  by (simp add: no_nan_def compute_kinetic_tf_def cf_def those_map_Some_nonneg)

lemma block_step_Inr0:
  assumes "block_step f d da db blk st = Inr st'"
  shows "index_ok d (functions_local_to_global blk)
    \<and> index_ok da (functions_local_to_global blk)
    \<and> index_ok db (functions_local_to_global blk)
    \<and> length (w blk) = length (block_phi blk)
    \<and> (\<exists>v et vt eta vta etb vtb.
          no_nan (compute_kinetic_tf (block_rho d blk)) = Inr (et, vt)
        \<and> no_nan (compute_kinetic_tf (block_rho da blk)) = Inr (eta, vta)
        \<and> no_nan (compute_kinetic_tf (block_rho db blk)) = Inr (etb, vtb)
        \<and> st' = \<lparr>nelec_a = nelec_a st + einsum_a_a (w blk) (block_rho da blk),
                  nelec_b = nelec_b st + einsum_a_a (w blk) (block_rho db blk),
                  nelec_tot = nelec_tot st + einsum_a_a (w blk) (block_rho d blk),
                  exc_a = exc_a st
                    + einsum_a_a (w blk) (take (npoints blk) (V_out (f (block_rho d blk)))),
                  exc_b = exc_b st
                    + einsum_a_a (w blk) (take (npoints blk) (V_out (f (block_rho db blk)))),
                  exc_tot = exc_tot st
                    + einsum_a_a (w blk) (take (npoints blk) (V_out (f (block_rho d blk)))),
                  et_a = et_a st + einsum_a_a (w blk) eta,
                  et_b = et_b st + einsum_a_a (w blk) etb,
                  et_tot = et_tot st + einsum_a_a (w blk) et,
                  V = scatter_add (V st) (functions_local_to_global blk)
                        (symmetrized (einsum_pb_p_p_pa (length (functions_local_to_global blk))
                                        (block_phi blk) v (w blk))),
                  Vt = scatter_add (Vt st) (functions_local_to_global blk)
                        (symmetrized (einsum_pb_p_p_pa (length (functions_local_to_global blk))
                                        (block_phi blk) (map2 (-) vt vta) (w blk)))\<rparr>)"
  using assms
  unfolding block_step_def block_rho_def block_phi_def Let_def
  by (auto split: if_splits sum.splits prod.splits dest: no_nan_length simp add: einsum_pm_mn_pn_def)

lemma block_step_Inr:
  assumes "block_step f d da db blk st = Inr st'"
  shows "index_ok d (functions_local_to_global blk)
    \<and> index_ok da (functions_local_to_global blk)
    \<and> index_ok db (functions_local_to_global blk)
    \<and> length (w blk) = length (block_phi blk)
    \<and> (\<exists>v vt.
          st' = \<lparr>nelec_a = nelec_a st + einsum_a_a (w blk) (block_rho da blk),
                  nelec_b = nelec_b st + einsum_a_a (w blk) (block_rho db blk),
                  nelec_tot = nelec_tot st + einsum_a_a (w blk) (block_rho d blk),
                  exc_a = exc_a st
                    + einsum_a_a (w blk) (take (npoints blk) (V_out (f (block_rho d blk)))),
                  exc_b = exc_b st
                    + einsum_a_a (w blk) (take (npoints blk) (V_out (f (block_rho db blk)))),
                  exc_tot = exc_tot st
                    + einsum_a_a (w blk) (take (npoints blk) (V_out (f (block_rho d blk)))),
                  et_a = et_a st
                    + einsum_a_a (w blk) (map (\<lambda>r. 2.8712 * r powr (5 / 3)) (block_rho da blk)),
                  et_b = et_b st
                    + einsum_a_a (w blk) (map (\<lambda>r. 2.8712 * r powr (5 / 3)) (block_rho db blk)),
                  et_tot = et_tot st
                    + einsum_a_a (w blk) (map (\<lambda>r. 2.8712 * r powr (5 / 3)) (block_rho d blk)),
                  V = scatter_add (V st) (functions_local_to_global blk)
                        (symmetrized (einsum_pb_p_p_pa (length (functions_local_to_global blk))
                                        (block_phi blk) v (w blk))),
                  Vt = scatter_add (Vt st) (functions_local_to_global blk)
                        (symmetrized (einsum_pb_p_p_pa (length (functions_local_to_global blk))
                                        (block_phi blk) vt (w blk)))\<rparr>)"
proof -
  from block_step_Inr0 [OF assms] obtain v et vt eta vta etb vtb where
    idx: "index_ok d (functions_local_to_global blk)"
      "index_ok da (functions_local_to_global blk)"
      "index_ok db (functions_local_to_global blk)"
      "length (w blk) = length (block_phi blk)" and
    k: "no_nan (compute_kinetic_tf (block_rho d blk)) = Inr (et, vt)" and
    ka: "no_nan (compute_kinetic_tf (block_rho da blk)) = Inr (eta, vta)" and
    kb: "no_nan (compute_kinetic_tf (block_rho db blk)) = Inr (etb, vtb)" and
    st': "st' = \<lparr>nelec_a = nelec_a st + einsum_a_a (w blk) (block_rho da blk),
                  nelec_b = nelec_b st + einsum_a_a (w blk) (block_rho db blk),
                  nelec_tot = nelec_tot st + einsum_a_a (w blk) (block_rho d blk),
                  exc_a = exc_a st
                    + einsum_a_a (w blk) (take (npoints blk) (V_out (f (block_rho d blk)))),
                  exc_b = exc_b st
                    + einsum_a_a (w blk) (take (npoints blk) (V_out (f (block_rho db blk)))),
                  exc_tot = exc_tot st
                    + einsum_a_a (w blk) (take (npoints blk) (V_out (f (block_rho d blk)))),
                  et_a = et_a st + einsum_a_a (w blk) eta,
                  et_b = et_b st + einsum_a_a (w blk) etb,
                  et_tot = et_tot st + einsum_a_a (w blk) et,
                  V = scatter_add (V st) (functions_local_to_global blk)
                        (symmetrized (einsum_pb_p_p_pa (length (functions_local_to_global blk))
                                        (block_phi blk) v (w blk))),
                  Vt = scatter_add (Vt st) (functions_local_to_global blk)
                        (symmetrized (einsum_pb_p_p_pa (length (functions_local_to_global blk))
                                        (block_phi blk) (map2 (-) vt vta) (w blk)))\<rparr>"
    by blast
  from no_nan_values [OF k] have et: "et = map (\<lambda>r. 2.8712 * r powr (5 / 3)) (block_rho d blk)"
    by simp
  from no_nan_values [OF ka] have eta: "eta = map (\<lambda>r. 2.8712 * r powr (5 / 3)) (block_rho da blk)"
    by simp
  from no_nan_values [OF kb] have etb: "etb = map (\<lambda>r. 2.8712 * r powr (5 / 3)) (block_rho db blk)"
    by simp
  show ?thesis
    using idx st' [unfolded et eta etb] by blast
qed

lemma ncols_zeros_like [simp]: "ncols (zeros_like m) = ncols m"
  by (cases m) (simp_all add: ncols_def zeros_like_def)

lemma nrows_zeros_like [simp]: "nrows (zeros_like m) = nrows m"
  by (simp add: nrows_def zeros_like_def)

lemma map2_map_map: "map2 h (map f xs) (map g xs) = map (\<lambda>x. h (f x) (g x)) xs"
  by (induction xs) simp_all

lemma map2_add_zeros_right: "map2 (+) r (map (\<lambda>x. 0 :: real) r) = r"
  by (induction r) simp_all

lemma map2_add_zeros_left: "map2 (+) (map (\<lambda>x. 0 :: real) r) r = r"
  by (induction r) simp_all

lemma block_diag_sum:
  "dm_both_of dma dmb = mat_add (dma_sup_of dma dmb) (dmb_sup_of dma dmb)"
proof -
  have a: "map2 (map2 (+)) (map (\<lambda>r. r @ replicate (ncols dmb) 0) dma)
             (map (\<lambda>r. r @ replicate (ncols dmb) 0) (zeros_like dma))
           = map (\<lambda>r. r @ replicate (ncols dmb) 0) dma"
    unfolding zeros_like_def map_map comp_def
    by (simp add: map2_map_map map2_add_zeros_right)
  have b: "map2 (map2 (+)) (map (\<lambda>r. replicate (ncols dma) 0 @ r) (zeros_like dmb))
             (map (\<lambda>r. replicate (ncols dma) 0 @ r) dmb)
           = map (\<lambda>r. replicate (ncols dma) 0 @ r) dmb"
    unfolding zeros_like_def map_map comp_def
    by (simp add: map2_map_map map2_add_zeros_left)
  have len: "length (map (\<lambda>r. r @ replicate (ncols dmb) 0) dma)
               = length (map (\<lambda>r. r @ replicate (ncols dmb) 0) (zeros_like dma))"
    by (simp add: zeros_like_def)
  have "mat_add (dma_sup_of dma dmb) (dmb_sup_of dma dmb)
          = map2 (map2 (+))
              (map (\<lambda>r. r @ replicate (ncols dmb) 0) dma
                 @ map (\<lambda>r. replicate (ncols dma) 0 @ r) (zeros_like dmb))
              (map (\<lambda>r. r @ replicate (ncols dmb) 0) (zeros_like dma)
                 @ map (\<lambda>r. replicate (ncols dma) 0 @ r) dmb)"
    by (simp only: dma_sup_of_def dmb_sup_of_def Let_def block_diag_def mat_add_def
        ncols_zeros_like)
  also have "\<dots> = map (\<lambda>r. r @ replicate (ncols dmb) 0) dma
                    @ map (\<lambda>r. replicate (ncols dma) 0 @ r) dmb"
    by (simp only: zip_append [OF len] map_append a b)
  finally show ?thesis
    by (simp only: dm_both_of_def block_diag_def)
qed

lemma rect_row: "rect m \<Longrightarrow> g < nrows m \<Longrightarrow> length (m ! g) = ncols m"
  by (simp add: rect_def nrows_def)

lemma rect_zeros_like: "rect m \<Longrightarrow> rect (zeros_like m)"
  by (cases m) (auto simp add: rect_def zeros_like_def ncols_def)

lemma nrows_block_diag: "nrows (block_diag a b) = nrows a + nrows b"
  by (simp add: nrows_def block_diag_def)

lemma ncols_block_diag: "rect a \<Longrightarrow> rect b \<Longrightarrow> ncols (block_diag a b) = ncols a + ncols b"
  by (cases a; cases b) (auto simp add: ncols_def block_diag_def rect_def)

lemma rect_block_diag:
  assumes "rect a" "rect b"
  shows "rect (block_diag a b)"
  unfolding rect_def ncols_block_diag [OF assms]
  using assms by (auto simp add: block_diag_def rect_def)

lemma square_rect: "square n m \<Longrightarrow> rect m \<and> nrows m = n \<and> ncols m = n"
  by (cases m) (auto simp add: square_def rect_def nrows_def ncols_def)

lemma square_dm_both:
  assumes "rect dma" "nrows dma = ncols dma" "rect dmb" "nrows dmb = ncols dmb"
  shows "square (nrows dma + nrows dmb) (dm_both_of dma dmb)"
proof -
  have r: "rect (block_diag dma dmb)" using assms by (simp add: rect_block_diag)
  have c: "ncols (block_diag dma dmb) = nrows dma + nrows dmb"
    using assms by (simp add: ncols_block_diag)
  have n: "length (block_diag dma dmb) = nrows dma + nrows dmb"
    using nrows_block_diag [of dma dmb] by (simp add: nrows_def)
  show ?thesis
    using r c n by (simp add: square_def dm_both_of_def rect_def)
qed

lemma square_zeros_like: "square n m \<Longrightarrow> square n (zeros_like m)"
  by (auto simp add: square_def zeros_like_def)

lemma mat_add_nth:
  assumes "g < length a" "g < length b" "h < length (a ! g)" "h < length (b ! g)"
  shows "mat_add a b ! g ! h = a ! g ! h + b ! g ! h"
  using assms by (simp add: mat_add_def)

lemma dm_entry_sum:
  assumes ra: "rect dma" and rb: "rect dmb"
    and g: "g < nrows (dm_both_of dma dmb)" and h: "h < ncols (dm_both_of dma dmb)"
  shows "dm_both_of dma dmb ! g ! h = dma_sup_of dma dmb ! g ! h + dmb_sup_of dma dmb ! g ! h"
proof -
  have za: "rect (zeros_like dma)" and zb: "rect (zeros_like dmb)"
    using ra rb by (simp_all add: rect_zeros_like)
  have ra': "rect (dma_sup_of dma dmb)" and rb': "rect (dmb_sup_of dma dmb)"
    using ra rb za zb by (simp_all add: dma_sup_of_def dmb_sup_of_def rect_block_diag)
  have na: "nrows (dma_sup_of dma dmb) = nrows (dm_both_of dma dmb)"
    and nb: "nrows (dmb_sup_of dma dmb) = nrows (dm_both_of dma dmb)"
    by (simp_all add: dma_sup_of_def dmb_sup_of_def dm_both_of_def nrows_block_diag)
  have ca: "ncols (dma_sup_of dma dmb) = ncols (dm_both_of dma dmb)"
    and cb: "ncols (dmb_sup_of dma dmb) = ncols (dm_both_of dma dmb)"
    using ra rb za zb
    by (simp_all add: dma_sup_of_def dmb_sup_of_def dm_both_of_def ncols_block_diag)
  have la: "length (dma_sup_of dma dmb ! g) = ncols (dm_both_of dma dmb)"
    using rect_row [OF ra'] g na ca by simp
  have lb: "length (dmb_sup_of dma dmb ! g) = ncols (dm_both_of dma dmb)"
    using rect_row [OF rb'] g nb cb by simp
  have "mat_add (dma_sup_of dma dmb) (dmb_sup_of dma dmb) ! g ! h
          = dma_sup_of dma dmb ! g ! h + dmb_sup_of dma dmb ! g ! h"
    using g h na nb la lb by (intro mat_add_nth) (simp_all add: nrows_def)
  then show ?thesis by (simp only: block_diag_sum [symmetric])
qed

lemma sum_list_upt_cong:
  "(\<And>i. i < n \<Longrightarrow> f i = g i) \<Longrightarrow> (\<Sum>i\<leftarrow>[0..<n]. f i) = (\<Sum>i\<leftarrow>[0..<n]. (g i :: real))"
  by (rule arg_cong [where f = sum_list]) simp

lemma block_rho_sum:
  assumes ra: "rect dma" and rb: "rect dmb"
    and idx: "index_ok (dm_both_of dma dmb) (functions_local_to_global blk)"
  shows "block_rho (dm_both_of dma dmb) blk
           = map2 (+) (block_rho (dma_sup_of dma dmb) blk) (block_rho (dmb_sup_of dma dmb) blk)"
proof -
  let ?lpos = "functions_local_to_global blk"
  let ?l = "length ?lpos"
  let ?d = "dm_both_of dma dmb" and ?da = "dma_sup_of dma dmb" and ?db = "dmb_sup_of dma dmb"
  have entry: "gather ?d ?lpos ! m ! n = gather ?da ?lpos ! m ! n + gather ?db ?lpos ! m ! n"
    if "m < ?l" "n < ?l" for m n
  proof -
    have "?lpos ! m < nrows ?d" "?lpos ! n < ncols ?d"
      using idx that by (auto simp add: index_ok_def)
    from dm_entry_sum [OF ra rb this] show ?thesis
      using that by (simp add: gather_def)
  qed
  have row: "(\<Sum>m\<leftarrow>[0..<?l]. \<Sum>n\<leftarrow>[0..<?l]. r ! m * gather ?d ?lpos ! m ! n * r ! n)
           = (\<Sum>m\<leftarrow>[0..<?l]. \<Sum>n\<leftarrow>[0..<?l]. r ! m * gather ?da ?lpos ! m ! n * r ! n)
           + (\<Sum>m\<leftarrow>[0..<?l]. \<Sum>n\<leftarrow>[0..<?l]. r ! m * gather ?db ?lpos ! m ! n * r ! n)" for r
  proof -
    have "(\<Sum>m\<leftarrow>[0..<?l]. \<Sum>n\<leftarrow>[0..<?l]. r ! m * gather ?d ?lpos ! m ! n * r ! n)
        = (\<Sum>m\<leftarrow>[0..<?l]. (\<Sum>n\<leftarrow>[0..<?l]. r ! m * gather ?da ?lpos ! m ! n * r ! n)
                            + (\<Sum>n\<leftarrow>[0..<?l]. r ! m * gather ?db ?lpos ! m ! n * r ! n))"
    proof (rule sum_list_upt_cong)
      fix m assume m: "m < ?l"
      have "(\<Sum>n\<leftarrow>[0..<?l]. r ! m * gather ?d ?lpos ! m ! n * r ! n)
          = (\<Sum>n\<leftarrow>[0..<?l]. r ! m * gather ?da ?lpos ! m ! n * r ! n
                              + r ! m * gather ?db ?lpos ! m ! n * r ! n)"
        by (rule sum_list_upt_cong) (simp add: entry [OF m] algebra_simps)
      then show "(\<Sum>n\<leftarrow>[0..<?l]. r ! m * gather ?d ?lpos ! m ! n * r ! n)
          = (\<Sum>n\<leftarrow>[0..<?l]. r ! m * gather ?da ?lpos ! m ! n * r ! n)
            + (\<Sum>n\<leftarrow>[0..<?l]. r ! m * gather ?db ?lpos ! m ! n * r ! n)"
        by (simp only: sum_list_addf)
    qed
    then show ?thesis by (simp only: sum_list_addf)
  qed
  show ?thesis
    unfolding block_rho_def einsum_pm_mn_pn_def map_map comp_def map2_map_map
    by (rule map_cong [OF refl]) (simp only: row distrib_left)
qed

lemma length_block_rho: "length (block_rho d blk) = length (block_phi blk)"
  by (simp add: block_rho_def einsum_pm_mn_pn_def)

lemma einsum_a_a_add:
  assumes "length ws \<le> length xs" "length ws \<le> length ys"
  shows "einsum_a_a ws (map2 (+) xs ys) = einsum_a_a ws xs + einsum_a_a ws ys"
proof -
  have "(\<Sum>a\<leftarrow>[0..<length ws]. ws ! a * map2 (+) xs ys ! a)
      = (\<Sum>a\<leftarrow>[0..<length ws]. ws ! a * xs ! a + ws ! a * ys ! a)"
    using assms by (intro sum_list_upt_cong) (simp add: algebra_simps)
  then show ?thesis
    by (simp only: einsum_a_a_def sum_list_addf)
qed

lemma block_step_nelec:
  assumes ra: "rect dma" and rb: "rect dmb"
    and step: "block_step f (dm_both_of dma dmb) (dma_sup_of dma dmb) (dmb_sup_of dma dmb) blk st
                 = Inr st'"
    and inv: "nelec_tot st = nelec_a st + nelec_b st"
  shows "nelec_tot st' = nelec_a st' + nelec_b st'"
proof -
  note facts = block_step_Inr [OF step]
  from facts have idx: "index_ok (dm_both_of dma dmb) (functions_local_to_global blk)"
    and len: "length (w blk) = length (block_phi blk)"
    by simp_all
  from facts obtain x y where
    st': "nelec_a st' = nelec_a st + einsum_a_a (w blk) (block_rho (dma_sup_of dma dmb) blk)"
      "nelec_b st' = nelec_b st + einsum_a_a (w blk) (block_rho (dmb_sup_of dma dmb) blk)"
      "nelec_tot st' = nelec_tot st + einsum_a_a (w blk) (block_rho (dm_both_of dma dmb) blk)"
    by auto
  have "einsum_a_a (w blk) (block_rho (dm_both_of dma dmb) blk)
          = einsum_a_a (w blk) (block_rho (dma_sup_of dma dmb) blk)
            + einsum_a_a (w blk) (block_rho (dmb_sup_of dma dmb) blk)"
    unfolding block_rho_sum [OF ra rb idx]
    by (rule einsum_a_a_add) (simp_all add: length_block_rho len)
  then show ?thesis
    using inv by (simp add: st')
qed

lemma run_blocks_nelec:
  assumes ra: "rect dma" and rb: "rect dmb"
  shows "run_blocks f (dm_both_of dma dmb) (dma_sup_of dma dmb) (dmb_sup_of dma dmb) bs st = Inr st'
     \<Longrightarrow> nelec_tot st = nelec_a st + nelec_b st
     \<Longrightarrow> nelec_tot st' = nelec_a st' + nelec_b st'"
proof (induction bs arbitrary: st)
  case Nil
  then show ?case by simp
next
  case (Cons b bs)
  from Cons.prems(1) obtain st1 where
    step: "block_step f (dm_both_of dma dmb) (dma_sup_of dma dmb) (dmb_sup_of dma dmb) b st = Inr st1"
    and rest: "run_blocks f (dm_both_of dma dmb) (dma_sup_of dma dmb) (dmb_sup_of dma dmb) bs st1 = Inr st'"
    by (auto split: sum.splits)
  from block_step_nelec [OF ra rb step Cons.prems(2)]
  have "nelec_tot st1 = nelec_a st1 + nelec_b st1" .
  from Cons.IH [OF rest this] show ?case .
qed

lemma mat_T_eq:
  assumes sq: "square n m" and sym: "sym_entries n m"
  shows "mat_T m = m"
proof -
  from square_rect [OF sq] have nc: "ncols m = n" by simp
  from sq have len: "length m = n" and rows: "\<And>i. i < n \<Longrightarrow> length (m ! i) = n"
    by (simp_all add: square_def)
  show ?thesis
  proof (rule nth_equalityI)
    show "length (mat_T m) = length m" by (simp add: mat_T_def nc len)
  next
    fix j assume "j < length (mat_T m)"
    then have j: "j < n" by (simp add: mat_T_def nc)
    have "map (\<lambda>r. r ! j) m = m ! j"
    proof (rule nth_equalityI)
      show "length (map (\<lambda>r. r ! j) m) = length (m ! j)" using j by (simp add: len rows)
    next
      fix i assume "i < length (map (\<lambda>r. r ! j) m)"
      then have i: "i < n" by (simp add: len)
      then show "map (\<lambda>r. r ! j) m ! i = m ! j ! i"
        using sym j by (simp add: len sym_entries_def)
    qed
    then show "mat_T m ! j = m ! j" using j by (simp add: mat_T_def nc)
  qed
qed

lemma square_einsum: "square l (einsum_pb_p_p_pa l phi v ws)"
  by (auto simp add: square_def einsum_pb_p_p_pa_def)

lemma symmetrized_nth:
  assumes sq: "square l x" and i: "i < l" and j: "j < l"
  shows "symmetrized x ! i ! j = 1 / 2 * (x ! i ! j + x ! j ! i)"
proof -
  from square_rect [OF sq] have nc: "ncols x = l" by simp
  from sq have len: "length x = l" and rows: "\<And>i. i < l \<Longrightarrow> length (x ! i) = l"
    by (simp_all add: square_def)
  have t: "mat_T x ! i ! j = x ! j ! i"
    using i j by (simp add: mat_T_def nc len)
  have lt: "length (mat_T x) = l" "length (mat_T x ! i) = l"
    using i by (simp_all add: mat_T_def nc len)
  have "mat_add x (mat_T x) ! i ! j = x ! i ! j + x ! j ! i"
    using i j lt len rows by (simp add: mat_add_nth t)
  moreover have "length (mat_add x (mat_T x)) = l" "length (mat_add x (mat_T x) ! i) = l"
    using i lt len rows by (simp_all add: mat_add_def)
  ultimately show ?thesis
    using i j by (simp add: symmetrized_def mat_scale_def)
qed

lemma square_mat_T: "square l x \<Longrightarrow> square l (mat_T x)"
proof -
  assume sq: "square l x"
  from square_rect [OF sq] have nc: "ncols x = l" by simp
  from sq have len: "length x = l" by (simp add: square_def)
  show ?thesis by (simp add: square_def mat_T_def nc len)
qed

lemma square_mat_add:
  assumes "square l a" "square l b"
  shows "square l (mat_add a b)"
proof -
  have "length r = l" if "r \<in> set (map2 (map2 (+)) a b)" for r
  proof -
    from that obtain x y where "(x, y) \<in> set (zip a b)" and r: "r = map2 (+) x y"
      by auto
    then have "x \<in> set a" "y \<in> set b" by (auto elim: in_set_zipE)
    with assms have "length x = l" "length y = l" by (simp_all add: square_def)
    then show ?thesis by (simp add: r)
  qed
  then show ?thesis
    using assms by (simp add: square_def mat_add_def)
qed

lemma square_symmetrized: "square l x \<Longrightarrow> square l (symmetrized x)"
proof -
  assume sq: "square l x"
  from square_mat_add [OF sq square_mat_T [OF sq]]
  show ?thesis by (simp add: symmetrized_def mat_scale_def square_def)
qed

lemma sym_symmetrized: "square l x \<Longrightarrow> sym_entries l (symmetrized x)"
  by (simp add: sym_entries_def symmetrized_nth add.commute)

lemma find_Some_set: "find P xs = Some x \<Longrightarrow> x \<in> set xs"
  by (induction xs) (auto split: if_splits)

lemma last_index_Some: "last_index lpos g = Some i \<Longrightarrow> i < length lpos"
  using find_Some_set [of "\<lambda>i. lpos ! i = g" "rev [0..<length lpos]" i]
  by (simp add: last_index_def)

lemma square_scatter_add: "square n m \<Longrightarrow> square n (scatter_add m lpos s)"
proof -
  assume sq: "square n m"
  from square_rect [OF sq] show ?thesis
    by (auto simp add: square_def scatter_add_def nrows_def)
qed

lemma sym_scatter_add:
  assumes sq: "square n m" and sym: "sym_entries n m" and s: "sym_entries (length lpos) s"
  shows "sym_entries n (scatter_add m lpos s)"
proof -
  from square_rect [OF sq] have nr: "nrows m = n" and nc: "ncols m = n" by simp_all
  have entry: "scatter_add m lpos s ! g ! h =
      (case last_index lpos g of
         None \<Rightarrow> m ! g ! h
       | Some i \<Rightarrow> (case last_index lpos h of None \<Rightarrow> m ! g ! h | Some j \<Rightarrow> m ! g ! h + s ! i ! j))"
    if "g < n" "h < n" for g h
    using that by (simp add: scatter_add_def nr nc cong: option.case_cong)
  show ?thesis
    unfolding sym_entries_def
  proof (intro allI impI)
    fix g h assume g: "g < n" and h: "h < n"
    have m: "m ! g ! h = m ! h ! g" using sym g h by (simp add: sym_entries_def)
    show "scatter_add m lpos s ! g ! h = scatter_add m lpos s ! h ! g"
    proof (cases "last_index lpos g")
      case None
      then show ?thesis by (simp add: entry g h m split: option.splits)
    next
      case (Some i)
      note gi = this
      show ?thesis
      proof (cases "last_index lpos h")
        case None
        then show ?thesis by (simp add: entry g h m gi)
      next
        case (Some j)
        have "s ! i ! j = s ! j ! i"
          using s last_index_Some [OF gi] last_index_Some [OF Some] by (simp add: sym_entries_def)
        then show ?thesis by (simp add: entry g h m gi Some)
      qed
    qed
  qed
qed

lemma block_step_sym:
  assumes step: "block_step f d da db blk st = Inr st'"
    and inv: "square n (V st) \<and> sym_entries n (V st) \<and> square n (Vt st) \<and> sym_entries n (Vt st)"
  shows "square n (V st') \<and> sym_entries n (V st') \<and> square n (Vt st') \<and> sym_entries n (Vt st')"
proof -
  let ?lpos = "functions_local_to_global blk"
  let ?l = "length ?lpos"
  let ?phi = "block_phi blk"
  from block_step_Inr [OF step] obtain v vt where
    V: "V st' = scatter_add (V st) ?lpos (symmetrized (einsum_pb_p_p_pa ?l ?phi v (w blk)))" and
    Vt: "Vt st' = scatter_add (Vt st) ?lpos (symmetrized (einsum_pb_p_p_pa ?l ?phi vt (w blk)))"
    by auto
  have s: "sym_entries ?l (symmetrized (einsum_pb_p_p_pa ?l ?phi u (w blk)))" for u
    by (rule sym_symmetrized [OF square_einsum])
  show ?thesis
    using inv by (simp add: V Vt square_scatter_add sym_scatter_add [OF _ _ s])
qed

lemma run_blocks_sym:
  "run_blocks f d da db bs st = Inr st'
     \<Longrightarrow> square n (V st) \<and> sym_entries n (V st) \<and> square n (Vt st) \<and> sym_entries n (Vt st)
     \<Longrightarrow> square n (V st') \<and> sym_entries n (V st') \<and> square n (Vt st') \<and> sym_entries n (Vt st')"
proof (induction bs arbitrary: st)
  case Nil
  then show ?case by simp
next
  case (Cons b bs)
  from Cons.prems(1) obtain st1 where
    step: "block_step f d da db b st = Inr st1"
    and rest: "run_blocks f d da db bs st1 = Inr st'"
    by (auto split: sum.splits)
  from Cons.IH [OF rest block_step_sym [OF step Cons.prems(2)]] show ?case .
qed

text \<open>
  Claim C2. The supersystem density matrix is the sum of the two padded subsystem
  matrices; hence on every block whose indices are inside the matrices the density is,
  point by point, the sum of the two subsystem densities; each pass adds the quadrature
  of these densities to the electron counts, so after any number of passes
  \<open>nelec_tot = nelec_a + nelec_b\<close>.
\<close>

theorem density_partition_exact:
  assumes ra: "rect dma" and rb: "rect dmb"
  shows "dm_both_of dma dmb = mat_add (dma_sup_of dma dmb) (dmb_sup_of dma dmb)
    \<and> (\<forall>blk. index_ok (dm_both_of dma dmb) (functions_local_to_global blk) \<longrightarrow>
          length (block_rho (dma_sup_of dma dmb) blk) = length (block_rho (dm_both_of dma dmb) blk)
          \<and> length (block_rho (dmb_sup_of dma dmb) blk) = length (block_rho (dm_both_of dma dmb) blk)
          \<and> (\<forall>p < length (block_rho (dm_both_of dma dmb) blk).
                block_rho (dm_both_of dma dmb) blk ! p
                  = block_rho (dma_sup_of dma dmb) blk ! p + block_rho (dmb_sup_of dma dmb) blk ! p))
    \<and> (\<forall>blk st st'.
          block_step f (dm_both_of dma dmb) (dma_sup_of dma dmb) (dmb_sup_of dma dmb) blk st = Inr st'
          \<longrightarrow> index_ok (dm_both_of dma dmb) (functions_local_to_global blk)
            \<and> nelec_tot st' = nelec_tot st + einsum_a_a (w blk) (block_rho (dm_both_of dma dmb) blk)
            \<and> nelec_a st' = nelec_a st + einsum_a_a (w blk) (block_rho (dma_sup_of dma dmb) blk)
            \<and> nelec_b st' = nelec_b st + einsum_a_a (w blk) (block_rho (dmb_sup_of dma dmb) blk))
    \<and> (\<forall>k st. grid_loop f dma dmb (take k blocks) = Inr st \<longrightarrow>
          nelec_tot st = nelec_a st + nelec_b st)"
proof (intro conjI allI impI)
  show "dm_both_of dma dmb = mat_add (dma_sup_of dma dmb) (dmb_sup_of dma dmb)"
    by (rule block_diag_sum)
next
  fix blk
  show "length (block_rho (dma_sup_of dma dmb) blk) = length (block_rho (dm_both_of dma dmb) blk)"
    and "length (block_rho (dmb_sup_of dma dmb) blk) = length (block_rho (dm_both_of dma dmb) blk)"
    by (simp_all add: length_block_rho)
next
  fix blk p
  assume idx: "index_ok (dm_both_of dma dmb) (functions_local_to_global blk)"
    and p: "p < length (block_rho (dm_both_of dma dmb) blk)"
  from p have "p < length (block_rho (dma_sup_of dma dmb) blk)"
    "p < length (block_rho (dmb_sup_of dma dmb) blk)"
    by (simp_all add: length_block_rho)
  then have "map2 (+) (block_rho (dma_sup_of dma dmb) blk) (block_rho (dmb_sup_of dma dmb) blk) ! p
               = block_rho (dma_sup_of dma dmb) blk ! p + block_rho (dmb_sup_of dma dmb) blk ! p"
    by simp
  then show "block_rho (dm_both_of dma dmb) blk ! p
               = block_rho (dma_sup_of dma dmb) blk ! p + block_rho (dmb_sup_of dma dmb) blk ! p"
    by (simp only: block_rho_sum [OF ra rb idx])
next
  fix blk st st'
  assume step: "block_step f (dm_both_of dma dmb) (dma_sup_of dma dmb) (dmb_sup_of dma dmb) blk st
                  = Inr st'"
  from block_step_Inr [OF step]
  show "index_ok (dm_both_of dma dmb) (functions_local_to_global blk)"
    and "nelec_tot st' = nelec_tot st + einsum_a_a (w blk) (block_rho (dm_both_of dma dmb) blk)"
    and "nelec_a st' = nelec_a st + einsum_a_a (w blk) (block_rho (dma_sup_of dma dmb) blk)"
    and "nelec_b st' = nelec_b st + einsum_a_a (w blk) (block_rho (dmb_sup_of dma dmb) blk)"
    by auto
next
  fix k st
  assume "grid_loop f dma dmb (take k blocks) = Inr st"
  then show "nelec_tot st = nelec_a st + nelec_b st"
    unfolding grid_loop_def
    by (rule run_blocks_nelec [OF ra rb]) (simp add: initial_locals_def)
qed

text \<open>
  Claim C3. For square density matrices, \<open>V\<close> and \<open>Vt\<close> start as zero matrices, every
  contribution \<open>0.5 * (Vtmp + Vtmp.T)\<close> is symmetric, and after every pass of the loop
  \<open>V = V.T\<close> and \<open>Vt = Vt.T\<close>.
\<close>

theorem potential_matrices_symmetric:
  assumes ra: "rect dma" and sa: "nrows dma = ncols dma"
    and rb: "rect dmb" and sb: "nrows dmb = ncols dmb"
  shows "V (initial_locals (dm_both_of dma dmb)) = zeros_like (dm_both_of dma dmb)
    \<and> Vt (initial_locals (dm_both_of dma dmb)) = zeros_like (dm_both_of dma dmb)
    \<and> (\<forall>l phi v ws. mat_T (symmetrized (einsum_pb_p_p_pa l phi v ws))
                       = symmetrized (einsum_pb_p_p_pa l phi v ws))
    \<and> (\<forall>k st. grid_loop f dma dmb (take k blocks) = Inr st \<longrightarrow>
          mat_T (V st) = V st \<and> mat_T (Vt st) = Vt st)"
proof (intro conjI allI impI)
  show "V (initial_locals (dm_both_of dma dmb)) = zeros_like (dm_both_of dma dmb)"
    and "Vt (initial_locals (dm_both_of dma dmb)) = zeros_like (dm_both_of dma dmb)"
    by (simp_all add: initial_locals_def)
next
  fix l phi v ws
  have sq: "square l (einsum_pb_p_p_pa l phi v ws)" by (rule square_einsum)
  have "square l (symmetrized (einsum_pb_p_p_pa l phi v ws))"
    by (rule square_symmetrized [OF sq])
  then show "mat_T (symmetrized (einsum_pb_p_p_pa l phi v ws))
               = symmetrized (einsum_pb_p_p_pa l phi v ws)"
    by (rule mat_T_eq) (rule sym_symmetrized [OF sq])
next
  fix k st
  assume run: "grid_loop f dma dmb (take k blocks) = Inr st"
  let ?n = "nrows dma + nrows dmb"
  have z: "square ?n (zeros_like (dm_both_of dma dmb))"
    by (rule square_zeros_like [OF square_dm_both [OF ra sa rb sb]])
  have zs: "sym_entries ?n (zeros_like (dm_both_of dma dmb))"
    using z by (simp add: sym_entries_def zeros_like_def square_def)
  have init: "square ?n (V (initial_locals (dm_both_of dma dmb)))
      \<and> sym_entries ?n (V (initial_locals (dm_both_of dma dmb)))
      \<and> square ?n (Vt (initial_locals (dm_both_of dma dmb)))
      \<and> sym_entries ?n (Vt (initial_locals (dm_both_of dma dmb)))"
    using z zs by (simp add: initial_locals_def)
  from run_blocks_sym [OF run [unfolded grid_loop_def] init]
  have fin: "square ?n (V st)" "sym_entries ?n (V st)" "square ?n (Vt st)" "sym_entries ?n (Vt st)"
    by simp_all
  show "mat_T (V st) = V st"
    by (rule mat_T_eq [OF fin(1) fin(2)])
  show "mat_T (Vt st) = Vt st"
    by (rule mat_T_eq [OF fin(3) fin(4)])
qed

lemma block_step_returns:
  assumes "index_ok d (functions_local_to_global blk)"
    and "index_ok da (functions_local_to_global blk)"
    and "index_ok db (functions_local_to_global blk)"
    and "\<forall>row \<in> set (block_phi blk). length row = length (functions_local_to_global blk)"
    and "\<forall>r \<in> set (block_rho d blk). 0 \<le> r"
    and "\<forall>r \<in> set (block_rho da blk). 0 \<le> r"
    and "\<forall>r \<in> set (block_rho db blk). 0 \<le> r"
    and "length (w blk) = length (block_phi blk)"
    and "length (take (npoints blk) (V_out (f (block_rho d blk)))) = length (w blk)"
    and "length (take (npoints blk) (V_out (f (block_rho db blk)))) = length (w blk)"
    and "length (take (npoints blk) (V_RHO_A_out (f (block_rho d blk)))) = length (w blk)"
    and "length (take (npoints blk) (V_RHO_A_out (f (block_rho da blk)))) = length (w blk)"
  shows "\<exists>st'. block_step f d da db blk st = Inr st'"
  using assms
  unfolding block_step_def block_rho_def block_phi_def
  by (simp add: Let_def no_nan_nonneg einsum_pm_mn_pn_def)




lemma block_diag_nth:
  assumes ra: "rect a" and rb: "rect b"
    and g: "g < nrows a + nrows b" and h: "h < ncols a + ncols b"
  shows "block_diag a b ! g ! h =
     (if g < nrows a then (if h < ncols a then a ! g ! h else 0)
      else (if h < ncols a then 0 else b ! (g - nrows a) ! (h - ncols a)))"
proof (cases "g < nrows a")
  case True
  then have "length (a ! g) = ncols a" using ra by (simp add: rect_row)
  then show ?thesis
    using True h by (simp add: block_diag_def nth_append nrows_def)
next
  case False
  then have "g - nrows a < nrows b" using g by simp
  then have "length (b ! (g - nrows a)) = ncols b" using rb by (simp add: rect_row)
  then show ?thesis
    using False g h by (simp add: block_diag_def nth_append nrows_def)
qed

lemma zeros_like_nth:
  "g < nrows m \<Longrightarrow> h < length (m ! g) \<Longrightarrow> zeros_like m ! g ! h = 0"
  by (simp add: zeros_like_def nrows_def)

lemma example_shapes:
  "rect dmaX" "nrows dmaX = 10" "ncols dmaX = 10" "rect dmbX" "nrows dmbX = 1" "ncols dmbX = 1"
  by (auto simp add: rect_def nrows_def ncols_def dmaX_def dmbX_def)

lemma example_dm_shapes:
  "nrows (dm_both_of dmaX dmbX) = 11" "ncols (dm_both_of dmaX dmbX) = 11"
  "nrows (dma_sup_of dmaX dmbX) = 11" "ncols (dma_sup_of dmaX dmbX) = 11"
  "nrows (dmb_sup_of dmaX dmbX) = 11" "ncols (dmb_sup_of dmaX dmbX) = 11"
  by (simp_all add: dm_both_of_def dma_sup_of_def dmb_sup_of_def nrows_block_diag
      ncols_block_diag example_shapes rect_zeros_like)

lemma example_gather:
  "gather (dm_both_of dmaX dmbX) [0, 10] = [[1 / 2, 0], [0, 1 / 2]]"
  "gather (dma_sup_of dmaX dmbX) [0, 10] = [[1 / 2, 0], [0, 0]]"
  "gather (dmb_sup_of dmaX dmbX) [0, 10] = [[0, 0], [0, 1 / 2]]"
proof -
  have a00: "dmaX ! 0 ! 0 = 1 / 2" and b00: "dmbX ! 0 ! 0 = 1 / 2"
    by (simp_all add: dmaX_def dmbX_def)
  have za: "zeros_like dmaX ! 0 ! 0 = 0" and zb: "zeros_like dmbX ! 0 ! 0 = 0"
    by (simp_all add: zeros_like_nth nrows_def dmaX_def dmbX_def)
  note bd = block_diag_nth example_shapes rect_zeros_like
  show "gather (dm_both_of dmaX dmbX) [0, 10] = [[1 / 2, 0], [0, 1 / 2]]"
    by (simp add: gather_def dm_both_of_def bd a00 b00)
  show "gather (dma_sup_of dmaX dmbX) [0, 10] = [[1 / 2, 0], [0, 0]]"
    by (simp add: gather_def dma_sup_of_def bd a00 zb)
  show "gather (dmb_sup_of dmaX dmbX) [0, 10] = [[0, 0], [0, 1 / 2]]"
    by (simp add: gather_def dmb_sup_of_def bd za b00)
qed

lemma upt_2: "[0..<2] = [0, 1]"
  by (simp add: upt_rec)

lemma example_phi: "block_phi blockX = [[1, 1]]"
  by (simp add: block_phi_def blockX_def)

lemma example_rho:
  "block_rho (dm_both_of dmaX dmbX) blockX = [2]"
  "block_rho (dma_sup_of dmaX dmbX) blockX = [1]"
  "block_rho (dmb_sup_of dmaX dmbX) blockX = [1]"
  unfolding block_rho_def example_phi
  by (simp_all add: blockX_def example_gather einsum_pm_mn_pn_def upt_2)


lemma example_loop: "\<exists>st. grid_loop fX dmaX dmbX [blockX] = Inr st"
proof -
  have "\<exists>st'. block_step fX (dm_both_of dmaX dmbX) (dma_sup_of dmaX dmbX) (dmb_sup_of dmaX dmbX)
                blockX (initial_locals (dm_both_of dmaX dmbX)) = Inr st'"
  proof (rule block_step_returns)
    show "index_ok (dm_both_of dmaX dmbX) (functions_local_to_global blockX)"
      "index_ok (dma_sup_of dmaX dmbX) (functions_local_to_global blockX)"
      "index_ok (dmb_sup_of dmaX dmbX) (functions_local_to_global blockX)"
      by (simp_all add: index_ok_def example_dm_shapes blockX_def)
  qed (simp_all add: example_rho example_phi, simp_all add: blockX_def fX_def)
  then show ?thesis
    by (auto simp add: grid_loop_def)
qed




theorem density_partition_exact_witness:
  "dm_both_of dmaX dmbX = mat_add (dma_sup_of dmaX dmbX) (dmb_sup_of dmaX dmbX)
   \<and> block_rho (dm_both_of dmaX dmbX) blockX = [2]
   \<and> block_rho (dma_sup_of dmaX dmbX) blockX = [1]
   \<and> block_rho (dmb_sup_of dmaX dmbX) blockX = [1]
   \<and> (\<exists>st. grid_loop fX dmaX dmbX [blockX] = Inr st
         \<and> nelec_tot st = nelec_a st + nelec_b st)"
proof -
  note inst = density_partition_exact [OF example_shapes(1) example_shapes(4), of fX "[blockX]"]
  from example_loop obtain st where run: "grid_loop fX dmaX dmbX [blockX] = Inr st" by blast
  then have "grid_loop fX dmaX dmbX (take 1 [blockX]) = Inr st" by simp
  with inst have nelec: "nelec_tot st = nelec_a st + nelec_b st" by blast
  from inst have sum: "dm_both_of dmaX dmbX = mat_add (dma_sup_of dmaX dmbX) (dmb_sup_of dmaX dmbX)"
    by blast
  from run nelec have "\<exists>st. grid_loop fX dmaX dmbX [blockX] = Inr st
         \<and> nelec_tot st = nelec_a st + nelec_b st"
    by blast
  with sum example_rho show ?thesis by blast
qed

theorem potential_matrices_symmetric_witness:
  "\<exists>st. grid_loop fX dmaX dmbX [blockX] = Inr st \<and> mat_T (V st) = V st \<and> mat_T (Vt st) = Vt st"
proof -
  have sa: "nrows dmaX = ncols dmaX" and sb: "nrows dmbX = ncols dmbX"
    by (simp_all add: example_shapes)
  note inst = potential_matrices_symmetric [OF example_shapes(1) sa example_shapes(4) sb,
      of fX "[blockX]"]
  from example_loop obtain st where run: "grid_loop fX dmaX dmbX [blockX] = Inr st" by blast
  then have "grid_loop fX dmaX dmbX (take 1 [blockX]) = Inr st" by simp
  with inst have "mat_T (V st) = V st \<and> mat_T (Vt st) = Vt st" by blast
  with run show ?thesis by blast
qed

end
